theory Spec2Isabelle
  imports Complex_Main
begin

section \<open>Data model\<close>

text \<open>
  A \<open>double\<close> is idealised as a real number and an \<open>int\<close> as an unbounded integer; a
  \<open>gtsam::Vector\<close> or matrix is the list of its entries. A \<open>Pose3\<close> is its rotation matrix
  (row by row) and its translation.
\<close>

datatype Pose3 = Pose3 (rotation: "real list") (translation: "real list")

datatype noise_model = Constrained_All nat | Isotropic_Sigma nat real

text \<open>
  The cost models of \<open>OptimizerSetting\<close> that the graph builder reads, with the values the
  constructor in \<open>OptimizerSetting.cpp\<close> gives them.
\<close>

record OptimizerSetting =
  p_cost_model :: noise_model
  v_cost_model :: noise_model
  a_cost_model :: noise_model
  f_cost_model :: noise_model
  t_cost_model :: noise_model

definition OptimizerSetting_default :: OptimizerSetting where
  "OptimizerSetting_default =
     \<lparr> p_cost_model = Isotropic_Sigma 6 0.001,
       v_cost_model = Isotropic_Sigma 6 1,
       a_cost_model = Isotropic_Sigma 6 1,
       f_cost_model = Isotropic_Sigma 6 1,
       t_cost_model = Isotropic_Sigma 1 1 \<rparr>"

text \<open>
  A link, as the builder reads it: \<open>getJoints\<close> holds the ids of the joints of
  \<open>link->getJoints()\<close>, in their order (the value of \<open>connected_joints[k].lock()->getID()\<close>).
\<close>

record RobotLink =
  link_id :: int
  link_name :: string
  isFixed :: bool
  getFixedPose :: Pose3
  Twcom :: Pose3
  inertiaMatrix :: "real list list"
  getJoints :: "int list"

text \<open>
  A joint, as the builder reads it: the id and the name of the links that
  \<open>parentLink().lock()\<close> and \<open>childLink().lock()\<close> give, and the values of
  \<open>transformTo(link_2)\<close> and \<open>screwAxis(link_2)\<close> for the child link \<open>link_2\<close>.
\<close>

record RobotJoint =
  joint_id :: int
  joint_name :: string
  parentLink_id :: int
  parentLink_name :: string
  childLink_id :: int
  childLink_name :: string
  transformTo_child :: Pose3
  screwAxis_child :: "real list"

record UniversalRobot =
  links :: "RobotLink list"
  joints :: "RobotJoint list"

text \<open>
  Modelled from the spec: the Variable-Key scheme, whose functions (\<open>PoseKey\<close>, \<open>TwistKey\<close>,
  ..., \<open>PhaseKey\<close>) are declared in a header that is not among the sources. The spec makes a
  key a pure value (role, entity ids, time index, or a phase index) with a tagged encoding
  per role that is free of collisions, which a datatype with one constructor per role is.
  The arguments are in the order of the calls: link or joint id, then time; a wrench key has
  the link id, the joint id and the time.
\<close>

datatype key =
    PoseKey int int
  | TwistKey int int
  | TwistAccelKey int int
  | WrenchKey int int int
  | TorqueKey int int
  | JointAngleKey int int
  | JointVelKey int int
  | JointAccelKey int int
  | PhaseKey int

text \<open>
  Modelled from the spec: the collocation schemes, an enumeration of the same missing header.
  The spec names Euler, Trapezoidal, Runge-Kutta and Hermite-Simpson.
\<close>

datatype CollocationScheme = Euler | RungeKutta | Trapezoidal | HermiteSimpson

text \<open>
  The expressions over \<open>double\<close> that the collocation code builds: a leaf \<open>Double_(key)\<close>,
  the sum and the difference of two expressions, the product \<open>c * e\<close> of a constant and an
  expression, and the binary expression of \<open>multDouble\<close>.
\<close>

datatype Double_expr =
    Leaf key
  | Plus Double_expr Double_expr
  | Minus Double_expr Double_expr
  | ScalarMultiply real Double_expr
  | MultDouble Double_expr Double_expr

text \<open>
  The factors the builder adds, one constructor per factor class, with the arguments of
  the constructor call in their order. \<open>ExpressionFactor h z R\<close> is what
  \<open>addExpressionFactor(h, z, R)\<close> adds.
\<close>

datatype factor =
    PriorFactor_Pose3 key Pose3 noise_model
  | PriorFactor_Vector6 key "real list" noise_model
  | PoseFactor key key key noise_model Pose3 "real list"
  | TwistFactor key key key key noise_model Pose3 "real list"
  | TwistAccelFactor key key key key key key noise_model Pose3 "real list"
  | WrenchFactor0 key key key noise_model "real list list" "real list option"
  | WrenchFactor1 key key key key noise_model "real list list" "real list option"
  | WrenchFactor2 key key key key key noise_model "real list list" "real list option"
  | WrenchFactor3 key key key key key key noise_model "real list list" "real list option"
  | WrenchFactor4 key key key key key key key noise_model "real list list" "real list option"
  | WrenchEquivalenceFactor key key key noise_model Pose3 "real list"
  | TorqueFactor key key noise_model "real list"
  | WrenchPlanarFactor key noise_model "real list"
  | ExpressionFactor Double_expr real noise_model

type_synonym NonlinearFactorGraph = "factor list"

text \<open>
  The values a \<open>gtsam::Values\<close> holds here, and \<open>Values\<close> itself as the list of its
  entries in the order of insertion; no key occurs twice, since \<open>insert\<close> refuses one that
  is there.
\<close>

datatype val = Pose3_val Pose3 | Vector_val "real list" | double_val real

type_synonym Values = "(key \<times> val) list"

text \<open>
  What the code throws: \<open>std::runtime_error\<close> with its message, the exceptions of
  \<open>gtsam::Values\<close>, an index outside a \<open>std::vector\<close>, and the two failures the spec gives
  \<open>getJointBetweenLinks\<close>.
\<close>

datatype error =
    runtime_error string
  | ValuesKeyAlreadyExists key
  | ValuesKeyDoesNotExist key
  | ValuesIncorrectType key
  | IndexOutOfRange
  | NoSuchJoint
  | AmbiguousJoint

definition UnsupportedLinkDegree :: error where
  "UnsupportedLinkDegree = runtime_error ''Wrench factor not defined''"

definition UnsupportedCollocation :: error where
  "UnsupportedCollocation =
     runtime_error ''runge-kutta and hermite-simpson not implemented yet''"

definition Vector6_Zero :: "real list" where
  "Vector6_Zero = replicate 6 0"

section \<open>Per-instant factors\<close>

definition qFactors :: "OptimizerSetting \<Rightarrow> UniversalRobot \<Rightarrow> int \<Rightarrow> NonlinearFactorGraph" where
  "qFactors opt robot t =
     concat (map (\<lambda>link.
        if isFixed link
        then [PriorFactor_Pose3 (PoseKey (link_id link) t) (getFixedPose link)
                (Constrained_All 6)]
        else []) (links robot))
     @ map (\<lambda>joint.
        PoseFactor (PoseKey (parentLink_id joint) t) (PoseKey (childLink_id joint) t)
          (JointAngleKey (joint_id joint) t) (p_cost_model opt)
          (transformTo_child joint) (screwAxis_child joint)) (joints robot)"

definition vFactors :: "OptimizerSetting \<Rightarrow> UniversalRobot \<Rightarrow> int \<Rightarrow> NonlinearFactorGraph" where
  "vFactors opt robot t =
     concat (map (\<lambda>link.
        if isFixed link
        then [PriorFactor_Vector6 (TwistKey (link_id link) t) Vector6_Zero
                (Constrained_All 6)]
        else []) (links robot))
     @ map (\<lambda>joint.
        TwistFactor (TwistKey (parentLink_id joint) t) (TwistKey (childLink_id joint) t)
          (JointAngleKey (joint_id joint) t) (JointVelKey (joint_id joint) t)
          (v_cost_model opt) (transformTo_child joint) (screwAxis_child joint))
        (joints robot)"

definition aFactors :: "OptimizerSetting \<Rightarrow> UniversalRobot \<Rightarrow> int \<Rightarrow> NonlinearFactorGraph" where
  "aFactors opt robot t =
     concat (map (\<lambda>link.
        if isFixed link
        then [PriorFactor_Vector6 (TwistAccelKey (link_id link) t) Vector6_Zero
                (Constrained_All 6)]
        else []) (links robot))
     @ map (\<lambda>joint.
        TwistAccelFactor (TwistKey (childLink_id joint) t)
          (TwistAccelKey (parentLink_id joint) t) (TwistAccelKey (childLink_id joint) t)
          (JointAngleKey (joint_id joint) t) (JointVelKey (joint_id joint) t)
          (JointAccelKey (joint_id joint) t)
          (a_cost_model opt) (transformTo_child joint) (screwAxis_child joint))
        (joints robot)"

text \<open>
  The body of the loop over the links in \<open>dynamicsFactors\<close>, for a link that is not fixed:
  the chain of tests on \<open>connected_joints.size()\<close>, which throws past four joints.
\<close>

definition wrenchFactor ::
  "OptimizerSetting \<Rightarrow> int \<Rightarrow> real list option \<Rightarrow> RobotLink \<Rightarrow> error + factor" where
  "wrenchFactor opt t gravity link =
     (let i = link_id link; connected_joints = getJoints link in
      if length connected_joints = 0 then
        Inr (WrenchFactor0 (TwistKey i t) (TwistAccelKey i t)
               (PoseKey i t) (f_cost_model opt) (inertiaMatrix link) gravity)
      else if length connected_joints = 1 then
        Inr (WrenchFactor1 (TwistKey i t) (TwistAccelKey i t)
               (WrenchKey i (connected_joints ! 0) t)
               (PoseKey i t) (f_cost_model opt) (inertiaMatrix link) gravity)
      else if length connected_joints = 2 then
        Inr (WrenchFactor2 (TwistKey i t) (TwistAccelKey i t)
               (WrenchKey i (connected_joints ! 0) t)
               (WrenchKey i (connected_joints ! 1) t)
               (PoseKey i t) (f_cost_model opt) (inertiaMatrix link) gravity)
      else if length connected_joints = 3 then
        Inr (WrenchFactor3 (TwistKey i t) (TwistAccelKey i t)
               (WrenchKey i (connected_joints ! 0) t)
               (WrenchKey i (connected_joints ! 1) t)
               (WrenchKey i (connected_joints ! 2) t)
               (PoseKey i t) (f_cost_model opt) (inertiaMatrix link) gravity)
      else if length connected_joints = 4 then
        Inr (WrenchFactor4 (TwistKey i t) (TwistAccelKey i t)
               (WrenchKey i (connected_joints ! 0) t)
               (WrenchKey i (connected_joints ! 1) t)
               (WrenchKey i (connected_joints ! 2) t)
               (WrenchKey i (connected_joints ! 3) t)
               (PoseKey i t) (f_cost_model opt) (inertiaMatrix link) gravity)
      else Inl UnsupportedLinkDegree)"

text \<open>The loop over the links: the graph so far is passed along, a throw ends the loop.\<close>

fun dynamicsFactors_links ::
  "OptimizerSetting \<Rightarrow> int \<Rightarrow> real list option \<Rightarrow> RobotLink list \<Rightarrow>
   NonlinearFactorGraph \<Rightarrow> error + NonlinearFactorGraph" where
  "dynamicsFactors_links opt t gravity [] graph = Inr graph"
| "dynamicsFactors_links opt t gravity (link # rest) graph =
     (if \<not> isFixed link then
        (case wrenchFactor opt t gravity link of
           Inl e \<Rightarrow> Inl e
         | Inr f \<Rightarrow> dynamicsFactors_links opt t gravity rest (graph @ [f]))
      else dynamicsFactors_links opt t gravity rest graph)"

text \<open>The body of the loop over the joints in \<open>dynamicsFactors\<close>.\<close>

definition dynamicsFactors_joint ::
  "OptimizerSetting \<Rightarrow> int \<Rightarrow> real list option \<Rightarrow> RobotJoint \<Rightarrow> NonlinearFactorGraph" where
  "dynamicsFactors_joint opt t planar_axis joint =
     (let i1 = parentLink_id joint; i2 = childLink_id joint; j = joint_id joint in
      [WrenchEquivalenceFactor (WrenchKey i1 j t) (WrenchKey i2 j t)
         (JointAngleKey j t) (f_cost_model opt)
         (transformTo_child joint) (screwAxis_child joint),
       TorqueFactor (WrenchKey i2 j t) (TorqueKey j t)
         (t_cost_model opt) (screwAxis_child joint)]
      @ (case planar_axis of
           Some axis \<Rightarrow> [WrenchPlanarFactor (WrenchKey i2 j t) (Constrained_All 3) axis]
         | None \<Rightarrow> []))"

definition dynamicsFactors ::
  "OptimizerSetting \<Rightarrow> UniversalRobot \<Rightarrow> int \<Rightarrow> real list option \<Rightarrow> real list option \<Rightarrow>
   error + NonlinearFactorGraph" where
  "dynamicsFactors opt robot t gravity planar_axis =
     (case dynamicsFactors_links opt t gravity (links robot) [] of
        Inl e \<Rightarrow> Inl e
      | Inr graph \<Rightarrow>
          Inr (graph @ concat (map (dynamicsFactors_joint opt t planar_axis) (joints robot))))"

text \<open>\<open>contacts\<close> is a parameter the body never reads.\<close>

definition dynamicsFactorGraph ::
  "OptimizerSetting \<Rightarrow> UniversalRobot \<Rightarrow> int \<Rightarrow> real list option \<Rightarrow> real list option \<Rightarrow>
   nat list option \<Rightarrow> error + NonlinearFactorGraph" where
  "dynamicsFactorGraph opt robot t gravity planar_axis contacts =
     (case dynamicsFactors opt robot t gravity planar_axis of
        Inl e \<Rightarrow> Inl e
      | Inr d \<Rightarrow> Inr (qFactors opt robot t @ vFactors opt robot t @ aFactors opt robot t @ d))"

section \<open>Collocation\<close>

text \<open>
  The body of the loop over the joints in \<open>collocationFactors\<close>: the two expression
  factors of the scheme, with the measurement \<open>0.0\<close>, or the throw of the default case.
\<close>

definition collocationFactors_joint ::
  "int \<Rightarrow> real \<Rightarrow> CollocationScheme \<Rightarrow> RobotJoint \<Rightarrow> error + NonlinearFactorGraph" where
  "collocationFactors_joint t dt collocation joint =
     (let j = joint_id joint;
          q0_expr = Leaf (JointAngleKey j t);
          q1_expr = Leaf (JointAngleKey j (t + 1));
          v0_expr = Leaf (JointVelKey j t);
          v1_expr = Leaf (JointVelKey j (t + 1));
          a0_expr = Leaf (JointAccelKey j t);
          a1_expr = Leaf (JointAccelKey j (t + 1))
      in case collocation of
           Euler \<Rightarrow>
             Inr [ExpressionFactor
                    (Minus (Plus q0_expr (ScalarMultiply dt v0_expr)) q1_expr) 0
                    (Constrained_All 1),
                  ExpressionFactor
                    (Minus (Plus v0_expr (ScalarMultiply dt a0_expr)) v1_expr) 0
                    (Constrained_All 1)]
         | Trapezoidal \<Rightarrow>
             Inr [ExpressionFactor
                    (Minus (Plus (Plus q0_expr (ScalarMultiply (0.5 * dt) v0_expr))
                                 (ScalarMultiply (0.5 * dt) v1_expr)) q1_expr) 0
                    (Constrained_All 1),
                  ExpressionFactor
                    (Minus (Plus (Plus v0_expr (ScalarMultiply (0.5 * dt) a0_expr))
                                 (ScalarMultiply (0.5 * dt) a1_expr)) v1_expr) 0
                    (Constrained_All 1)]
         | _ \<Rightarrow> Inl UnsupportedCollocation)"

fun collocationFactors_joints ::
  "int \<Rightarrow> real \<Rightarrow> CollocationScheme \<Rightarrow> RobotJoint list \<Rightarrow> NonlinearFactorGraph \<Rightarrow>
   error + NonlinearFactorGraph" where
  "collocationFactors_joints t dt collocation [] graph = Inr graph"
| "collocationFactors_joints t dt collocation (joint # rest) graph =
     (case collocationFactors_joint t dt collocation joint of
        Inl e \<Rightarrow> Inl e
      | Inr fs \<Rightarrow> collocationFactors_joints t dt collocation rest (graph @ fs))"

definition collocationFactors ::
  "UniversalRobot \<Rightarrow> int \<Rightarrow> real \<Rightarrow> CollocationScheme \<Rightarrow> error + NonlinearFactorGraph" where
  "collocationFactors robot t dt collocation =
     collocationFactors_joints t dt collocation (joints robot) []"

text \<open>
  The same for \<open>multiPhaseCollocationFactors\<close>, where the step is the variable of the
  phase key and \<open>multDouble\<close> multiplies it with a rate.
\<close>

definition multiPhaseCollocationFactors_joint ::
  "int \<Rightarrow> int \<Rightarrow> CollocationScheme \<Rightarrow> RobotJoint \<Rightarrow> error + NonlinearFactorGraph" where
  "multiPhaseCollocationFactors_joint t phase collocation joint =
     (let phase_expr = Leaf (PhaseKey phase);
          j = joint_id joint;
          q0_expr = Leaf (JointAngleKey j t);
          q1_expr = Leaf (JointAngleKey j (t + 1));
          v0_expr = Leaf (JointVelKey j t);
          v1_expr = Leaf (JointVelKey j (t + 1));
          a0_expr = Leaf (JointAccelKey j t);
          a1_expr = Leaf (JointAccelKey j (t + 1))
      in if collocation = Euler then
           (let v0dt = MultDouble phase_expr v0_expr;
                a0dt = MultDouble phase_expr a0_expr
            in Inr [ExpressionFactor (Minus (Plus q0_expr v0dt) q1_expr) 0
                      (Constrained_All 1),
                    ExpressionFactor (Minus (Plus v0_expr a0dt) v1_expr) 0
                      (Constrained_All 1)])
         else if collocation = Trapezoidal then
           (let v0dt = MultDouble phase_expr v0_expr;
                a0dt = MultDouble phase_expr a0_expr;
                v1dt = MultDouble phase_expr v1_expr;
                a1dt = MultDouble phase_expr a1_expr
            in Inr [ExpressionFactor
                      (Minus (Plus (Plus q0_expr (ScalarMultiply 0.5 v0dt))
                                   (ScalarMultiply 0.5 v1dt)) q1_expr) 0
                      (Constrained_All 1),
                    ExpressionFactor
                      (Minus (Plus (Plus v0_expr (ScalarMultiply 0.5 a0dt))
                                   (ScalarMultiply 0.5 a1dt)) v1_expr) 0
                      (Constrained_All 1)])
         else Inl UnsupportedCollocation)"

fun multiPhaseCollocationFactors_joints ::
  "int \<Rightarrow> int \<Rightarrow> CollocationScheme \<Rightarrow> RobotJoint list \<Rightarrow> NonlinearFactorGraph \<Rightarrow>
   error + NonlinearFactorGraph" where
  "multiPhaseCollocationFactors_joints t phase collocation [] graph = Inr graph"
| "multiPhaseCollocationFactors_joints t phase collocation (joint # rest) graph =
     (case multiPhaseCollocationFactors_joint t phase collocation joint of
        Inl e \<Rightarrow> Inl e
      | Inr fs \<Rightarrow> multiPhaseCollocationFactors_joints t phase collocation rest (graph @ fs))"

definition multiPhaseCollocationFactors ::
  "UniversalRobot \<Rightarrow> int \<Rightarrow> int \<Rightarrow> CollocationScheme \<Rightarrow> error + NonlinearFactorGraph" where
  "multiPhaseCollocationFactors robot t phase collocation =
     multiPhaseCollocationFactors_joints t phase collocation (joints robot) []"

section \<open>Trajectories\<close>

text \<open>
  The loop of \<open>trajectoryFG\<close> over \<open>t\<close>, from the current \<open>t\<close> while
  \<open>t < num_steps + 1\<close>, with the graph built so far. A throw of a callee ends it.
\<close>

function trajectoryFG_loop ::
  "OptimizerSetting \<Rightarrow> UniversalRobot \<Rightarrow> int \<Rightarrow> real \<Rightarrow> CollocationScheme \<Rightarrow>
   real list option \<Rightarrow> real list option \<Rightarrow> int \<Rightarrow> NonlinearFactorGraph \<Rightarrow>
   error + NonlinearFactorGraph" where
  "trajectoryFG_loop opt robot num_steps dt collocation gravity planar_axis t graph =
     (if t < num_steps + 1 then
        (case dynamicsFactorGraph opt robot t gravity planar_axis None of
           Inl e \<Rightarrow> Inl e
         | Inr g \<Rightarrow>
             if t < num_steps then
               (case collocationFactors robot t dt collocation of
                  Inl e \<Rightarrow> Inl e
                | Inr c \<Rightarrow>
                    trajectoryFG_loop opt robot num_steps dt collocation gravity planar_axis
                      (t + 1) (graph @ g @ c))
             else
               trajectoryFG_loop opt robot num_steps dt collocation gravity planar_axis
                 (t + 1) (graph @ g))
      else Inr graph)"
  by pat_completeness auto
termination
  by (relation "measure (\<lambda>(opt, robot, num_steps, dt, collocation, gravity, planar_axis,
        t, graph). nat (num_steps + 1 - t))") auto

declare trajectoryFG_loop.simps [simp del]

definition trajectoryFG ::
  "OptimizerSetting \<Rightarrow> UniversalRobot \<Rightarrow> int \<Rightarrow> real \<Rightarrow> CollocationScheme \<Rightarrow>
   real list option \<Rightarrow> real list option \<Rightarrow> error + NonlinearFactorGraph" where
  "trajectoryFG opt robot num_steps dt collocation gravity planar_axis =
     trajectoryFG_loop opt robot num_steps dt collocation gravity planar_axis 0 []"

text \<open>
  \<open>multiPhaseTrajectoryFG\<close>. The inner loop of the first part adds the instants inside a
  phase: it runs while \<open>phase_step < phase_steps[phase] - 1\<close>, each turn moves \<open>t\<close> on
  (\<open>++t\<close>) and adds the instant. It returns \<open>t\<close> and the graph.
\<close>

function multiPhase_inphase_loop ::
  "OptimizerSetting \<Rightarrow> UniversalRobot \<Rightarrow> real list option \<Rightarrow> real list option \<Rightarrow>
   int \<Rightarrow> int \<Rightarrow> int \<Rightarrow> NonlinearFactorGraph \<Rightarrow> error + (int \<times> NonlinearFactorGraph)" where
  "multiPhase_inphase_loop opt robot gravity planar_axis steps phase_step t graph =
     (if phase_step < steps - 1 then
        (case dynamicsFactorGraph opt robot (t + 1) gravity planar_axis None of
           Inl e \<Rightarrow> Inl e
         | Inr g \<Rightarrow>
             multiPhase_inphase_loop opt robot gravity planar_axis steps (phase_step + 1)
               (t + 1) (graph @ g))
      else Inr (t, graph))"
  by pat_completeness auto
termination
  by (relation "measure (\<lambda>(opt, robot, gravity, planar_axis, steps, phase_step, t, graph).
        nat (steps - 1 - phase_step))") auto

declare multiPhase_inphase_loop.simps [simp del]

text \<open>
  The loop over the phases of the first part. \<open>robots[phase]\<close> is inside the vector by
  the loop test; \<open>phase_steps[phase]\<close> and \<open>transition_graphs[phase]\<close> are reads of other
  vectors, and a read outside one is the failure \<open>IndexOutOfRange\<close>.
\<close>

function multiPhase_dynamics_loop ::
  "OptimizerSetting \<Rightarrow> UniversalRobot list \<Rightarrow> int list \<Rightarrow> NonlinearFactorGraph list \<Rightarrow>
   real list option \<Rightarrow> real list option \<Rightarrow> nat \<Rightarrow> int \<Rightarrow> NonlinearFactorGraph \<Rightarrow>
   error + NonlinearFactorGraph" where
  "multiPhase_dynamics_loop opt robots phase_steps transition_graphs gravity planar_axis
     phase t graph =
     (if phase < length robots then
        (if phase < length phase_steps then
           (case multiPhase_inphase_loop opt (robots ! phase) gravity planar_axis
                   (phase_steps ! phase) 0 t graph of
              Inl e \<Rightarrow> Inl e
            | Inr (t1, graph1) \<Rightarrow>
                if int phase = int (length robots) - 1 then
                  (case dynamicsFactorGraph opt (robots ! phase) (t1 + 1) gravity
                          planar_axis None of
                     Inl e \<Rightarrow> Inl e
                   | Inr g \<Rightarrow>
                       multiPhase_dynamics_loop opt robots phase_steps transition_graphs
                         gravity planar_axis (phase + 1) (t1 + 1) (graph1 @ g))
                else if phase < length transition_graphs then
                  multiPhase_dynamics_loop opt robots phase_steps transition_graphs
                    gravity planar_axis (phase + 1) (t1 + 1)
                    (graph1 @ transition_graphs ! phase)
                else Inl IndexOutOfRange)
         else Inl IndexOutOfRange)
      else Inr graph)"
  by pat_completeness auto
termination
  by (relation "measure (\<lambda>(opt, robots, phase_steps, transition_graphs, gravity,
        planar_axis, phase, t, graph). length robots - phase)") auto

declare multiPhase_dynamics_loop.simps [simp del]

text \<open>
  The second part: for each phase, one call of \<open>multiPhaseCollocationFactors\<close> per step,
  at \<open>t++\<close>, with the index of the phase.
\<close>

function multiPhase_collocation_steps ::
  "UniversalRobot \<Rightarrow> CollocationScheme \<Rightarrow> int \<Rightarrow> nat \<Rightarrow> int \<Rightarrow> int \<Rightarrow>
   NonlinearFactorGraph \<Rightarrow> error + (int \<times> NonlinearFactorGraph)" where
  "multiPhase_collocation_steps robot collocation steps phase phase_step t graph =
     (if phase_step < steps then
        (case multiPhaseCollocationFactors robot t (int phase) collocation of
           Inl e \<Rightarrow> Inl e
         | Inr c \<Rightarrow>
             multiPhase_collocation_steps robot collocation steps phase (phase_step + 1)
               (t + 1) (graph @ c))
      else Inr (t, graph))"
  by pat_completeness auto
termination
  by (relation "measure (\<lambda>(robot, collocation, steps, phase, phase_step, t, graph).
        nat (steps - phase_step))") auto

declare multiPhase_collocation_steps.simps [simp del]

function multiPhase_collocation_loop ::
  "UniversalRobot list \<Rightarrow> int list \<Rightarrow> CollocationScheme \<Rightarrow> nat \<Rightarrow> int \<Rightarrow>
   NonlinearFactorGraph \<Rightarrow> error + NonlinearFactorGraph" where
  "multiPhase_collocation_loop robots phase_steps collocation phase t graph =
     (if phase < length robots then
        (if phase < length phase_steps then
           (case multiPhase_collocation_steps (robots ! phase) collocation
                   (phase_steps ! phase) phase 0 t graph of
              Inl e \<Rightarrow> Inl e
            | Inr (t1, graph1) \<Rightarrow>
                multiPhase_collocation_loop robots phase_steps collocation (phase + 1)
                  t1 graph1)
         else Inl IndexOutOfRange)
      else Inr graph)"
  by pat_completeness auto
termination
  by (relation "measure (\<lambda>(robots, phase_steps, collocation, phase, t, graph).
        length robots - phase)") auto

declare multiPhase_collocation_loop.simps [simp del]

text \<open>\<open>robots[0]\<close> is read before any test: with no robot it is outside the vector.\<close>

definition multiPhaseTrajectoryFG ::
  "OptimizerSetting \<Rightarrow> UniversalRobot list \<Rightarrow> int list \<Rightarrow> NonlinearFactorGraph list \<Rightarrow>
   CollocationScheme \<Rightarrow> real list option \<Rightarrow> real list option \<Rightarrow>
   error + NonlinearFactorGraph" where
  "multiPhaseTrajectoryFG opt robots phase_steps transition_graphs collocation gravity
     planar_axis =
     (if 0 < length robots then
        (case dynamicsFactorGraph opt (robots ! 0) 0 gravity planar_axis None of
           Inl e \<Rightarrow> Inl e
         | Inr g0 \<Rightarrow>
             (case multiPhase_dynamics_loop opt robots phase_steps transition_graphs
                     gravity planar_axis 0 0 g0 of
                Inl e \<Rightarrow> Inl e
              | Inr graph \<Rightarrow>
                  multiPhase_collocation_loop robots phase_steps collocation 0 0 graph))
      else Inl IndexOutOfRange)"

section \<open>Values and the error of an expression factor\<close>

text \<open>
  \<open>Values::atDouble\<close>: the \<open>double\<close> at a key; it throws when the key is absent or holds
  a value of another type.
\<close>

definition atDouble :: "Values \<Rightarrow> key \<Rightarrow> error + real" where
  "atDouble vals k =
     (case map_of vals k of
        None \<Rightarrow> Inl (ValuesKeyDoesNotExist k)
      | Some (double_val d) \<Rightarrow> Inr d
      | Some _ \<Rightarrow> Inl (ValuesIncorrectType k))"

fun expr_value :: "Values \<Rightarrow> Double_expr \<Rightarrow> error + real" where
  "expr_value vals (Leaf k) = atDouble vals k"
| "expr_value vals (Plus e1 e2) =
     (case expr_value vals e1 of Inl e \<Rightarrow> Inl e
      | Inr x \<Rightarrow> (case expr_value vals e2 of Inl e \<Rightarrow> Inl e | Inr y \<Rightarrow> Inr (x + y)))"
| "expr_value vals (Minus e1 e2) =
     (case expr_value vals e1 of Inl e \<Rightarrow> Inl e
      | Inr x \<Rightarrow> (case expr_value vals e2 of Inl e \<Rightarrow> Inl e | Inr y \<Rightarrow> Inr (x - y)))"
| "expr_value vals (ScalarMultiply c e1) =
     (case expr_value vals e1 of Inl e \<Rightarrow> Inl e | Inr x \<Rightarrow> Inr (c * x))"
| "expr_value vals (MultDouble e1 e2) =
     (case expr_value vals e1 of Inl e \<Rightarrow> Inl e
      | Inr x \<Rightarrow> (case expr_value vals e2 of Inl e \<Rightarrow> Inl e | Inr y \<Rightarrow> Inr (x * y)))"

text \<open>
  The residual of the expression factor with expression \<open>h\<close> and measurement \<open>z\<close>: the
  value of \<open>h\<close> minus \<open>z\<close>.
\<close>

definition unwhitenedError :: "Values \<Rightarrow> Double_expr \<Rightarrow> real \<Rightarrow> error + real" where
  "unwhitenedError vals h z =
     (case expr_value vals h of Inl e \<Rightarrow> Inl e | Inr x \<Rightarrow> Inr (x - z))"

section \<open>The joint between two links\<close>

text \<open>
  Modelled from the spec: \<open>getJointBetweenLinks\<close>, which \<open>UniversalRobot.h\<close> declares
  (returns the joint connecting the links l1 and l2) and no source file defines. By the
  spec it gives the joint, if any, that directly connects the two named links, fails with
  \<open>NoSuchJoint\<close> if none exists, and treats two joints between the same pair of links as
  \<open>AmbiguousJoint\<close>. A joint connects two links when they are its parent and its child,
  in either order.
\<close>

definition joint_connects :: "RobotJoint \<Rightarrow> string \<Rightarrow> string \<Rightarrow> bool" where
  "joint_connects joint l1 l2 \<longleftrightarrow>
     (parentLink_name joint = l1 \<and> childLink_name joint = l2) \<or>
     (parentLink_name joint = l2 \<and> childLink_name joint = l1)"

definition getJointBetweenLinks ::
  "UniversalRobot \<Rightarrow> string \<Rightarrow> string \<Rightarrow> error + RobotJoint" where
  "getJointBetweenLinks robot l1 l2 =
     (case filter (\<lambda>joint. joint_connects joint l1 l2) (joints robot) of
        [] \<Rightarrow> Inl NoSuchJoint
      | [joint] \<Rightarrow> Inr joint
      | _ \<Rightarrow> Inl AmbiguousJoint)"

section \<open>Default values and read-back\<close>

text \<open>
  \<open>Values::insert\<close> of one key and value, which throws when the key is there already,
  and the insertion of a sequence of entries one after the other, which is also what
  \<open>Values::insert(const Values&)\<close> does with the entries of its argument.
\<close>

definition Values_insert :: "Values \<Rightarrow> key \<Rightarrow> val \<Rightarrow> error + Values" where
  "Values_insert vals k v =
     (case map_of vals k of
        Some _ \<Rightarrow> Inl (ValuesKeyAlreadyExists k)
      | None \<Rightarrow> Inr (vals @ [(k, v)]))"

fun Values_insert_all :: "Values \<Rightarrow> (key \<times> val) list \<Rightarrow> error + Values" where
  "Values_insert_all vals [] = Inr vals"
| "Values_insert_all vals ((k, v) # rest) =
     (case Values_insert vals k v of
        Inl e \<Rightarrow> Inl e
      | Inr vals1 \<Rightarrow> Values_insert_all vals1 rest)"

text \<open>
  The inserts of the two loop bodies of \<open>zeroValues\<close>, in their order: three for a link,
  six for a joint. \<open>zero_twists\<close>, \<open>zero_accels\<close> and \<open>zero_wrenches\<close> are the zero
  6-vector; \<open>zero_torque[0]\<close>, \<open>zero_q[0]\<close>, \<open>zero_v[0]\<close> and \<open>zero_a[0]\<close> are the
  \<open>double\<close> zero.
\<close>

definition zeroValues_link :: "int \<Rightarrow> RobotLink \<Rightarrow> (key \<times> val) list" where
  "zeroValues_link t link =
     (let i = link_id link in
      [(PoseKey i t, Pose3_val (Twcom link)),
       (TwistKey i t, Vector_val Vector6_Zero),
       (TwistAccelKey i t, Vector_val Vector6_Zero)])"

definition zeroValues_joint :: "int \<Rightarrow> RobotJoint \<Rightarrow> (key \<times> val) list" where
  "zeroValues_joint t joint =
     (let j = joint_id joint in
      [(WrenchKey (parentLink_id joint) j t, Vector_val Vector6_Zero),
       (WrenchKey (childLink_id joint) j t, Vector_val Vector6_Zero),
       (TorqueKey j t, double_val 0),
       (JointAngleKey j t, double_val 0),
       (JointVelKey j t, double_val 0),
       (JointAccelKey j t, double_val 0)])"

fun zeroValues_links :: "int \<Rightarrow> RobotLink list \<Rightarrow> Values \<Rightarrow> error + Values" where
  "zeroValues_links t [] zero_values = Inr zero_values"
| "zeroValues_links t (link # rest) zero_values =
     (case Values_insert_all zero_values (zeroValues_link t link) of
        Inl e \<Rightarrow> Inl e
      | Inr zero_values1 \<Rightarrow> zeroValues_links t rest zero_values1)"

fun zeroValues_joints :: "int \<Rightarrow> RobotJoint list \<Rightarrow> Values \<Rightarrow> error + Values" where
  "zeroValues_joints t [] zero_values = Inr zero_values"
| "zeroValues_joints t (joint # rest) zero_values =
     (case Values_insert_all zero_values (zeroValues_joint t joint) of
        Inl e \<Rightarrow> Inl e
      | Inr zero_values1 \<Rightarrow> zeroValues_joints t rest zero_values1)"

definition zeroValues :: "UniversalRobot \<Rightarrow> int \<Rightarrow> error + Values" where
  "zeroValues robot t =
     (case zeroValues_links t (links robot) [] of
        Inl e \<Rightarrow> Inl e
      | Inr zero_values \<Rightarrow> zeroValues_joints t (joints robot) zero_values)"

text \<open>The two loops of \<open>zeroValuesTrajectory\<close>: over \<open>t <= num_steps\<close> and over
  \<open>phase <= num_phases\<close>.\<close>

function zeroValuesTrajectory_steps ::
  "UniversalRobot \<Rightarrow> int \<Rightarrow> int \<Rightarrow> Values \<Rightarrow> error + Values" where
  "zeroValuesTrajectory_steps robot num_steps t zero_values =
     (if t \<le> num_steps then
        (case zeroValues robot t of
           Inl e \<Rightarrow> Inl e
         | Inr instant \<Rightarrow>
             (case Values_insert_all zero_values instant of
                Inl e \<Rightarrow> Inl e
              | Inr zero_values1 \<Rightarrow>
                  zeroValuesTrajectory_steps robot num_steps (t + 1) zero_values1))
      else Inr zero_values)"
  by pat_completeness auto
termination
  by (relation "measure (\<lambda>(robot, num_steps, t, zero_values). nat (num_steps + 1 - t))") auto

declare zeroValuesTrajectory_steps.simps [simp del]

function zeroValuesTrajectory_phases :: "int \<Rightarrow> int \<Rightarrow> Values \<Rightarrow> error + Values" where
  "zeroValuesTrajectory_phases num_phases phase zero_values =
     (if phase \<le> num_phases then
        (case Values_insert zero_values (PhaseKey phase) (double_val 0.0) of
           Inl e \<Rightarrow> Inl e
         | Inr zero_values1 \<Rightarrow>
             zeroValuesTrajectory_phases num_phases (phase + 1) zero_values1)
      else Inr zero_values)"
  by pat_completeness auto
termination
  by (relation "measure (\<lambda>(num_phases, phase, zero_values). nat (num_phases + 1 - phase))")
     auto

declare zeroValuesTrajectory_phases.simps [simp del]

definition zeroValuesTrajectory :: "UniversalRobot \<Rightarrow> int \<Rightarrow> int \<Rightarrow> error + Values" where
  "zeroValuesTrajectory robot num_steps num_phases =
     (case zeroValuesTrajectory_steps robot num_steps 0 [] of
        Inl e \<Rightarrow> Inl e
      | Inr zero_values \<Rightarrow>
          if num_phases > 0 then zeroValuesTrajectory_phases num_phases 0 zero_values
          else Inr zero_values)"

text \<open>
  Modelled from the spec: \<open>numJoints\<close>, declared in \<open>UniversalRobot.h\<close> (return number of
  joints) and defined in a file that is not among the sources.
\<close>

definition numJoints :: "UniversalRobot \<Rightarrow> int" where
  "numJoints robot = int (length (joints robot))"

text \<open>
  The loop of \<open>jointAccels\<close>, \<open>jointVels\<close> and \<open>jointAngles\<close>, which differ in the key
  function only: while \<open>idx < robot.numJoints()\<close>, the entry \<open>idx\<close> of the vector becomes
  the \<open>double\<close> that the result holds at the key of joint \<open>joints[idx]\<close>.
\<close>

function joint_doubles_loop ::
  "(int \<Rightarrow> int \<Rightarrow> key) \<Rightarrow> UniversalRobot \<Rightarrow> Values \<Rightarrow> int \<Rightarrow> int \<Rightarrow> real list \<Rightarrow>
   error + real list" where
  "joint_doubles_loop Key robot result t idx vec =
     (if idx < numJoints robot then
        (if 0 \<le> idx \<and> nat idx < length (joints robot) then
           (case atDouble result (Key (joint_id (joints robot ! nat idx)) t) of
              Inl e \<Rightarrow> Inl e
            | Inr d \<Rightarrow> joint_doubles_loop Key robot result t (idx + 1) (vec[nat idx := d]))
         else Inl IndexOutOfRange)
      else Inr vec)"
  by pat_completeness auto
termination
  by (relation "measure (\<lambda>(Key, robot, result, t, idx, vec). nat (numJoints robot - idx))")
     auto

declare joint_doubles_loop.simps [simp del]

definition jointAccels :: "UniversalRobot \<Rightarrow> Values \<Rightarrow> int \<Rightarrow> error + real list" where
  "jointAccels robot result t =
     joint_doubles_loop JointAccelKey robot result t 0 (replicate (nat (numJoints robot)) 0)"

definition jointVels :: "UniversalRobot \<Rightarrow> Values \<Rightarrow> int \<Rightarrow> error + real list" where
  "jointVels robot result t =
     joint_doubles_loop JointVelKey robot result t 0 (replicate (nat (numJoints robot)) 0)"

definition jointAngles :: "UniversalRobot \<Rightarrow> Values \<Rightarrow> int \<Rightarrow> error + real list" where
  "jointAngles robot result t =
     joint_doubles_loop JointAngleKey robot result t 0 (replicate (nat (numJoints robot)) 0)"

text \<open>The time index of a key; a phase key has none.\<close>

fun key_time :: "key \<Rightarrow> int option" where
  "key_time (PoseKey i t) = Some t"
| "key_time (TwistKey i t) = Some t"
| "key_time (TwistAccelKey i t) = Some t"
| "key_time (WrenchKey i j t) = Some t"
| "key_time (TorqueKey j t) = Some t"
| "key_time (JointAngleKey j t) = Some t"
| "key_time (JointVelKey j t) = Some t"
| "key_time (JointAccelKey j t) = Some t"
| "key_time (PhaseKey p) = None"

text \<open>
  The ids of a robot tell its links apart and its joints apart, and no joint ties a link
  to itself: the robots for which the keys of \<open>zeroValues\<close> are all different.
\<close>

definition distinct_ids :: "UniversalRobot \<Rightarrow> bool" where
  "distinct_ids robot \<longleftrightarrow>
     distinct (map link_id (links robot)) \<and> distinct (map joint_id (joints robot)) \<and>
     (\<forall>joint\<in>set (joints robot). parentLink_id joint \<noteq> childLink_id joint)"

text \<open>The entries that \<open>zeroValues\<close> inserts, in their order.\<close>

definition zeroValues_entries :: "UniversalRobot \<Rightarrow> int \<Rightarrow> Values" where
  "zeroValues_entries robot t =
     concat (map (zeroValues_link t) (links robot)) @
     concat (map (zeroValues_joint t) (joints robot))"

text \<open>The entries of the phase keys \<open>0..P\<close>, and the test for a phase key.\<close>

definition phase_entries :: "int \<Rightarrow> Values" where
  "phase_entries P = map (\<lambda>phase. (PhaseKey phase, double_val 0)) [0..P]"

fun is_PhaseKey :: "key \<Rightarrow> bool" where
  "is_PhaseKey (PhaseKey p) = True"
| "is_PhaseKey k = False"

text \<open>
  The residual of a factor at given values, for the expression factors; the residuals of
  the other factor classes are not modelled.
\<close>

fun factor_residual :: "Values \<Rightarrow> factor \<Rightarrow> (error + real) option" where
  "factor_residual vals (ExpressionFactor h z R) = Some (unwhitenedError vals h z)"
| "factor_residual vals f = None"

text \<open>
  The time index at which phase \<open>p\<close> starts in the two parts of
  \<open>multiPhaseTrajectoryFG\<close>. The first part moves \<open>t\<close> on once for each instant inside
  a phase and once more at its boundary, \<open>max 1 n\<close> times for a phase of \<open>n\<close> steps; the
  collocation part moves it on once for each step, \<open>max 0 n\<close> times.
\<close>

definition dynamics_start :: "int list \<Rightarrow> nat \<Rightarrow> int" where
  "dynamics_start phase_steps p = sum_list (map (max 1) (take p phase_steps))"

definition collocation_start :: "int list \<Rightarrow> nat \<Rightarrow> int" where
  "collocation_start phase_steps p = sum_list (map (max 0) (take p phase_steps))"

text \<open>
  The constraint families of the spec, and the family of a factor. The two priors on a
  6-vector are told apart by the role of their key.
\<close>

datatype family =
    PosePrior | TwistPrior | AccelPrior
  | PoseConstraint | TwistConstraint | AccelConstraint
  | WrenchBalance | WrenchEquivalence | TorqueExtraction | Planar
  | Collocation | OtherFamily

fun family_of :: "factor \<Rightarrow> family" where
  "family_of (PriorFactor_Pose3 k p n) = PosePrior"
| "family_of (PriorFactor_Vector6 (TwistKey i t) v n) = TwistPrior"
| "family_of (PriorFactor_Vector6 (TwistAccelKey i t) v n) = AccelPrior"
| "family_of (PriorFactor_Vector6 k v n) = OtherFamily"
| "family_of (PoseFactor k1 k2 k3 n T S) = PoseConstraint"
| "family_of (TwistFactor k1 k2 k3 k4 n T S) = TwistConstraint"
| "family_of (TwistAccelFactor k1 k2 k3 k4 k5 k6 n T S) = AccelConstraint"
| "family_of (WrenchFactor0 k1 k2 kp n I g) = WrenchBalance"
| "family_of (WrenchFactor1 k1 k2 w1 kp n I g) = WrenchBalance"
| "family_of (WrenchFactor2 k1 k2 w1 w2 kp n I g) = WrenchBalance"
| "family_of (WrenchFactor3 k1 k2 w1 w2 w3 kp n I g) = WrenchBalance"
| "family_of (WrenchFactor4 k1 k2 w1 w2 w3 w4 kp n I g) = WrenchBalance"
| "family_of (WrenchEquivalenceFactor k1 k2 k3 n T S) = WrenchEquivalence"
| "family_of (TorqueFactor k1 k2 n S) = TorqueExtraction"
| "family_of (WrenchPlanarFactor k n a) = Planar"
| "family_of (ExpressionFactor h z R) = Collocation"

definition count_family :: "family \<Rightarrow> NonlinearFactorGraph \<Rightarrow> nat" where
  "count_family fam graph = length (filter (\<lambda>f. family_of f = fam) graph)"

text \<open>The wrench variables of a wrench-balance factor, in the order of its constructor.\<close>

fun wrench_keys :: "factor \<Rightarrow> key list" where
  "wrench_keys (WrenchFactor0 k1 k2 kp n I g) = []"
| "wrench_keys (WrenchFactor1 k1 k2 w1 kp n I g) = [w1]"
| "wrench_keys (WrenchFactor2 k1 k2 w1 w2 kp n I g) = [w1, w2]"
| "wrench_keys (WrenchFactor3 k1 k2 w1 w2 w3 kp n I g) = [w1, w2, w3]"
| "wrench_keys (WrenchFactor4 k1 k2 w1 w2 w3 w4 kp n I g) = [w1, w2, w3, w4]"
| "wrench_keys f = []"

section \<open>Fixtures\<close>

text \<open>
  A robot in the shape of the fixture \<open>simple_urdf\<close> of the tests: the links \<open>l1\<close> and
  \<open>l2\<close> and the joint \<open>j1\<close> between them, two units apart along z; \<open>l1\<close> is taken as
  the fixed base.
\<close>

definition Pose3_identity :: Pose3 where
  "Pose3_identity = Pose3 [1, 0, 0, 0, 1, 0, 0, 0, 1] [0, 0, 0]"

definition simple_l1 :: RobotLink where
  "simple_l1 = \<lparr> link_id = 0, link_name = ''l1'', isFixed = True,
     getFixedPose = Pose3 [1, 0, 0, 0, 1, 0, 0, 0, 1] [0, 0, 1],
     Twcom = Pose3 [1, 0, 0, 0, 1, 0, 0, 0, 1] [0, 0, 1],
     inertiaMatrix = [], getJoints = [0] \<rparr>"

definition simple_l2 :: RobotLink where
  "simple_l2 = \<lparr> link_id = 1, link_name = ''l2'', isFixed = False,
     getFixedPose = Pose3_identity,
     Twcom = Pose3 [1, 0, 0, 0, 1, 0, 0, 0, 1] [0, 0, 3],
     inertiaMatrix = [], getJoints = [0] \<rparr>"

definition simple_j1 :: RobotJoint where
  "simple_j1 = \<lparr> joint_id = 0, joint_name = ''j1'',
     parentLink_id = 0, parentLink_name = ''l1'',
     childLink_id = 1, childLink_name = ''l2'',
     transformTo_child = Pose3 [1, 0, 0, 0, 1, 0, 0, 0, 1] [0, 0, -2],
     screwAxis_child = [1, 0, 0, 0, -1, 0] \<rparr>"

definition simple_robot :: UniversalRobot where
  "simple_robot = \<lparr> links = [simple_l1, simple_l2], joints = [simple_j1] \<rparr>"

text \<open>
  A robot whose free link \<open>hub\<close> has five joints, past what the wrench assembly covers:
  joint \<open>j\<close> ties the hub to the link \<open>j + 1\<close>, named \<open>spoke1\<close> to \<open>spoke5\<close>, and
  link 1 is the fixed base.
\<close>

definition hub_link :: RobotLink where
  "hub_link = \<lparr> link_id = 0, link_name = ''hub'', isFixed = False,
     getFixedPose = Pose3_identity, Twcom = Pose3_identity,
     inertiaMatrix = [], getJoints = [0, 1, 2, 3, 4] \<rparr>"

definition spoke_link :: "int \<Rightarrow> RobotLink" where
  "spoke_link i = \<lparr> link_id = i, link_name = ''spoke'' @ [''12345'' ! nat (i - 1)],
     isFixed = (i = 1),
     getFixedPose = Pose3_identity, Twcom = Pose3_identity,
     inertiaMatrix = [], getJoints = [i - 1] \<rparr>"

definition spoke_joint :: "int \<Rightarrow> RobotJoint" where
  "spoke_joint j = \<lparr> joint_id = j, joint_name = ''joint'' @ [''01234'' ! nat j],
     parentLink_id = 0, parentLink_name = ''hub'',
     childLink_id = j + 1, childLink_name = ''spoke'' @ [''12345'' ! nat j],
     transformTo_child = Pose3_identity, screwAxis_child = [1, 0, 0, 0, 0, 0] \<rparr>"

definition hub_robot :: UniversalRobot where
  "hub_robot = \<lparr> links = hub_link # map spoke_link [1, 2, 3, 4, 5],
     joints = map spoke_joint [0, 1, 2, 3, 4] \<rparr>"

text \<open>A robot of one fixed link and no joint.\<close>

definition lone_robot :: UniversalRobot where
  "lone_robot = \<lparr> links = [simple_l1 \<lparr> getJoints := [] \<rparr>], joints = [] \<rparr>"

text \<open>
  Values for the joint of \<open>simple_robot\<close> at the instants 0 and 1 that satisfy the Euler
  relations for the step \<open>0.5\<close>, and the same with the angle at instant 1 perturbed.
\<close>

definition Euler_values :: Values where
  "Euler_values =
     [(JointAngleKey 0 0, double_val 1), (JointVelKey 0 0, double_val 2),
      (JointAccelKey 0 0, double_val 3),
      (JointAngleKey 0 1, double_val 2), (JointVelKey 0 1, double_val 3.5)]"

definition Euler_values_perturbed :: Values where
  "Euler_values_perturbed =
     [(JointAngleKey 0 0, double_val 1), (JointVelKey 0 0, double_val 2),
      (JointAccelKey 0 0, double_val 3),
      (JointAngleKey 0 1, double_val 2.25), (JointVelKey 0 1, double_val 3.5)]"

text \<open>A transition constraint set for the boundary at instant 2.\<close>

definition transition_prior :: NonlinearFactorGraph where
  "transition_prior = [PriorFactor_Vector6 (TwistKey 1 2) Vector6_Zero (Constrained_All 6)]"

text \<open>A robot whose only joint ties its only link to itself.\<close>

definition self_joint_robot :: UniversalRobot where
  "self_joint_robot =
     \<lparr> links = [simple_l2],
       joints = [simple_j1 \<lparr> parentLink_id := 1, parentLink_name := ''l2'' \<rparr>] \<rparr>"

section \<open>Per-instant assembly: the number of constraints\<close>

lemma list_le4_cases:
  "length js \<le> 4 \<Longrightarrow>
     js = [] \<or> (\<exists>a. js = [a]) \<or> (\<exists>a b. js = [a, b]) \<or> (\<exists>a b c. js = [a, b, c]) \<or>
     (\<exists>a b c d. js = [a, b, c, d])"
  apply (cases js; simp)
  subgoal for a l1
    apply (cases l1; simp)
    subgoal for b l2
      apply (cases l2; simp)
      subgoal for c l3
        apply (cases l3; simp)
        done
      done
    done
  done

lemma wrenchFactor_ok:
  assumes "length (getJoints link) \<le> 4"
  shows "\<exists>f. wrenchFactor opt t gravity link = Inr f \<and> family_of f = WrenchBalance \<and>
           wrench_keys f = map (\<lambda>j. WrenchKey (link_id link) j t) (getJoints link)"
  using list_le4_cases [OF assms]
  by (auto simp add: wrenchFactor_def Let_def)

lemma wrenchFactor_fail:
  "5 \<le> length (getJoints link) \<Longrightarrow> wrenchFactor opt t gravity link = Inl UnsupportedLinkDegree"
  by (auto simp add: wrenchFactor_def Let_def)

lemma dynamicsFactors_links_ok:
  assumes "\<forall>link\<in>set ls. \<not> isFixed link \<longrightarrow> length (getJoints link) \<le> 4"
  shows "\<exists>ws. dynamicsFactors_links opt t gravity ls graph = Inr (graph @ ws) \<and>
           length ws = length (filter (\<lambda>link. \<not> isFixed link) ls) \<and>
           (\<forall>f\<in>set ws. family_of f = WrenchBalance) \<and>
           map wrench_keys ws =
             map (\<lambda>link. map (\<lambda>j. WrenchKey (link_id link) j t) (getJoints link))
               (filter (\<lambda>link. \<not> isFixed link) ls)"
  using assms
proof (induction ls arbitrary: graph)
  case Nil
  then show ?case by simp
next
  case (Cons link rest)
  show ?case
  proof (cases "isFixed link")
    case True
    with Cons.IH [of graph] Cons.prems show ?thesis by simp
  next
    case False
    with Cons.prems have "length (getJoints link) \<le> 4" by simp
    from wrenchFactor_ok [OF this, of opt t gravity]
    obtain f where f: "wrenchFactor opt t gravity link = Inr f" "family_of f = WrenchBalance"
      "wrench_keys f = map (\<lambda>j. WrenchKey (link_id link) j t) (getJoints link)"
      by blast
    from Cons.IH [of "graph @ [f]"] Cons.prems
    obtain ws where ws:
      "dynamicsFactors_links opt t gravity rest (graph @ [f]) = Inr ((graph @ [f]) @ ws)"
      "length ws = length (filter (\<lambda>link. \<not> isFixed link) rest)"
      "\<forall>f\<in>set ws. family_of f = WrenchBalance"
      "map wrench_keys ws =
         map (\<lambda>link. map (\<lambda>j. WrenchKey (link_id link) j t) (getJoints link))
           (filter (\<lambda>link. \<not> isFixed link) rest)"
      by auto
    show ?thesis
      by (rule exI [of _ "f # ws"]) (use False f ws in simp)
  qed
qed

lemma dynamicsFactors_links_fail:
  assumes "\<exists>link\<in>set ls. \<not> isFixed link \<and> 5 \<le> length (getJoints link)"
  shows "dynamicsFactors_links opt t gravity ls graph = Inl UnsupportedLinkDegree"
  using assms
proof (induction ls arbitrary: graph)
  case Nil
  then show ?case by simp
next
  case (Cons link rest)
  show ?case
  proof (cases "\<not> isFixed link \<and> 5 \<le> length (getJoints link)")
    case True
    then show ?thesis by (simp add: wrenchFactor_fail)
  next
    case False
    with Cons.prems
    have rest: "\<exists>link\<in>set rest. \<not> isFixed link \<and> 5 \<le> length (getJoints link)" by auto
    show ?thesis
    proof (cases "isFixed link")
      case True
      with Cons.IH [OF rest] show ?thesis by simp
    next
      case nf: False
      with False have "length (getJoints link) \<le> 4" by simp
      from wrenchFactor_ok [OF this, of opt t gravity]
      obtain f where "wrenchFactor opt t gravity link = Inr f" by blast
      with nf Cons.IH [OF rest] show ?thesis by simp
    qed
  qed
qed

lemma count_family_append:
  "count_family fam (xs @ ys) = count_family fam xs + count_family fam ys"
  by (simp add: count_family_def)

lemma count_family_all:
  "\<forall>f\<in>set ws. family_of f = fam' \<Longrightarrow>
   count_family fam ws = (if fam = fam' then length ws else 0)"
  by (induction ws) (auto simp add: count_family_def)

lemma length_fixed_priors:
  "length (concat (map (\<lambda>link. if isFixed link then [F link] else []) ls)) =
   length (filter isFixed ls)"
  by (induction ls) simp_all

lemma fixed_priors_family:
  "\<forall>link. family_of (F link) = fam' \<Longrightarrow>
   \<forall>f\<in>set (concat (map (\<lambda>link. if isFixed link then [F link] else []) ls)).
      family_of f = fam'"
  by (induction ls) auto

lemma count_fixed_priors:
  assumes "\<forall>link. family_of (F link) = fam'"
  shows "count_family fam (concat (map (\<lambda>link. if isFixed link then [F link] else []) ls)) =
         (if fam = fam' then length (filter isFixed ls) else 0)"
  using count_family_all [OF fixed_priors_family [OF assms], where fam = fam and ls1 = ls]
  by (simp add: length_fixed_priors)

lemma count_joint_factors:
  assumes "\<forall>joint. family_of (F joint) = fam'"
  shows "count_family fam (map F js) = (if fam = fam' then length js else 0)"
  using count_family_all [of "map F js" fam' fam] assms by simp

lemma count_qFactors:
  "count_family fam (qFactors opt robot t) =
     (if fam = PosePrior then length (filter isFixed (links robot)) else 0) +
     (if fam = PoseConstraint then length (joints robot) else 0)"
  unfolding qFactors_def count_family_append
  by (subst count_fixed_priors [where fam' = PosePrior], simp,
      subst count_joint_factors [where fam' = PoseConstraint], simp, simp)

lemma count_vFactors:
  "count_family fam (vFactors opt robot t) =
     (if fam = TwistPrior then length (filter isFixed (links robot)) else 0) +
     (if fam = TwistConstraint then length (joints robot) else 0)"
  unfolding vFactors_def count_family_append
  by (subst count_fixed_priors [where fam' = TwistPrior], simp,
      subst count_joint_factors [where fam' = TwistConstraint], simp, simp)

lemma count_aFactors:
  "count_family fam (aFactors opt robot t) =
     (if fam = AccelPrior then length (filter isFixed (links robot)) else 0) +
     (if fam = AccelConstraint then length (joints robot) else 0)"
  unfolding aFactors_def count_family_append
  by (subst count_fixed_priors [where fam' = AccelPrior], simp,
      subst count_joint_factors [where fam' = AccelConstraint], simp, simp)

lemma length_qva:
  "length (qFactors opt robot t) = length (filter isFixed (links robot)) + length (joints robot)"
  "length (vFactors opt robot t) = length (filter isFixed (links robot)) + length (joints robot)"
  "length (aFactors opt robot t) = length (filter isFixed (links robot)) + length (joints robot)"
  by (simp_all add: qFactors_def vFactors_def aFactors_def length_fixed_priors)

lemma joint_factors_no_planar:
  "length (concat (map (dynamicsFactors_joint opt t None) js)) = 2 * length js"
  "count_family fam (concat (map (dynamicsFactors_joint opt t None) js)) =
     (if fam = WrenchEquivalence then length js else 0) +
     (if fam = TorqueExtraction then length js else 0)"
  by (induction js) (auto simp add: dynamicsFactors_joint_def count_family_def Let_def)

lemma joint_factors_not_balance:
  "filter (\<lambda>f. family_of f = WrenchBalance)
     (concat (map (dynamicsFactors_joint opt t planar_axis) js)) = []"
  by (induction js) (simp_all add: dynamicsFactors_joint_def Let_def split: option.splits)

text \<open>
  Claim C1. For every robot and time index, the per-instant constraint set of
  \<open>dynamicsFactorGraph\<close> with no planar axis has 3 constraints per fixed link, 5 per
  joint and 1 per link that is not fixed: a pose, a twist and an acceleration prior for
  each fixed link; a pose, a twist, an acceleration, a wrench-equivalence and a torque
  constraint for each joint; a wrench-balance constraint for each link that is not fixed;
  and no planar constraint. The set exists when no free link has more than four joints;
  otherwise the call throws.
\<close>

theorem dynamicsFactorGraph_count:
  fixes robot :: UniversalRobot
  defines "nfixed \<equiv> length (filter isFixed (links robot))"
    and "nfree \<equiv> length (filter (\<lambda>link. \<not> isFixed link) (links robot))"
    and "njoints \<equiv> length (joints robot)"
  shows "if (\<forall>link\<in>set (links robot). \<not> isFixed link \<longrightarrow> length (getJoints link) \<le> 4)
     then (\<exists>graph. dynamicsFactorGraph opt robot t gravity None contacts = Inr graph \<and>
             length graph = nfixed * 3 + njoints * 5 + nfree * 1 \<and>
             count_family PosePrior graph = nfixed \<and>
             count_family TwistPrior graph = nfixed \<and>
             count_family AccelPrior graph = nfixed \<and>
             count_family PoseConstraint graph = njoints \<and>
             count_family TwistConstraint graph = njoints \<and>
             count_family AccelConstraint graph = njoints \<and>
             count_family WrenchEquivalence graph = njoints \<and>
             count_family TorqueExtraction graph = njoints \<and>
             count_family WrenchBalance graph = nfree \<and>
             count_family Planar graph = 0)
     else dynamicsFactorGraph opt robot t gravity None contacts = Inl UnsupportedLinkDegree"
proof (cases "\<forall>link\<in>set (links robot). \<not> isFixed link \<longrightarrow> length (getJoints link) \<le> 4")
  case True
  from dynamicsFactors_links_ok [OF True, of opt t gravity "[]"]
  obtain ws where ws: "dynamicsFactors_links opt t gravity (links robot) [] = Inr ws"
    "length ws = nfree" "\<forall>f\<in>set ws. family_of f = WrenchBalance"
    by (auto simp add: nfree_def)
  define graph where "graph = qFactors opt robot t @ vFactors opt robot t @
     aFactors opt robot t @ ws @ concat (map (dynamicsFactors_joint opt t None) (joints robot))"
  have res: "dynamicsFactorGraph opt robot t gravity None contacts = Inr graph"
    by (simp add: dynamicsFactorGraph_def dynamicsFactors_def ws graph_def)
  have len: "length graph = nfixed * 3 + njoints * 5 + nfree * 1"
    by (simp add: graph_def length_qva joint_factors_no_planar ws nfixed_def njoints_def)
  have cnt: "count_family fam graph =
      (if fam = PosePrior then nfixed else 0) + (if fam = PoseConstraint then njoints else 0) +
      (if fam = TwistPrior then nfixed else 0) + (if fam = TwistConstraint then njoints else 0) +
      (if fam = AccelPrior then nfixed else 0) + (if fam = AccelConstraint then njoints else 0) +
      (if fam = WrenchBalance then nfree else 0) +
      (if fam = WrenchEquivalence then njoints else 0) +
      (if fam = TorqueExtraction then njoints else 0)" for fam
    unfolding graph_def count_family_append count_qFactors count_vFactors count_aFactors
      joint_factors_no_planar count_family_all [OF ws(3)] ws(2) nfixed_def njoints_def
    by simp
  from True res len show ?thesis
    by (simp add: cnt)
next
  case False
  then have "\<exists>link\<in>set (links robot). \<not> isFixed link \<and> 5 \<le> length (getJoints link)"
    by auto
  from dynamicsFactors_links_fail [OF this] False show ?thesis
    by (simp add: dynamicsFactorGraph_def dynamicsFactors_def)
qed

theorem dynamicsFactorGraph_count_witness:
  "(\<exists>graph. dynamicsFactorGraph OptimizerSetting_default simple_robot 0 (Some [0, 0, -9.8])
       None None = Inr graph \<and>
     length graph = 9 \<and>
     count_family PosePrior graph = 1 \<and> count_family TwistPrior graph = 1 \<and>
     count_family AccelPrior graph = 1 \<and> count_family PoseConstraint graph = 1 \<and>
     count_family TwistConstraint graph = 1 \<and> count_family AccelConstraint graph = 1 \<and>
     count_family WrenchEquivalence graph = 1 \<and> count_family TorqueExtraction graph = 1 \<and>
     count_family WrenchBalance graph = 1 \<and> count_family Planar graph = 0) \<and>
   dynamicsFactorGraph OptimizerSetting_default hub_robot 0 (Some [0, 0, -9.8]) None None =
     Inl UnsupportedLinkDegree"
  using dynamicsFactorGraph_count [of simple_robot OptimizerSetting_default 0
      "Some [0, 0, -9.8]" None]
    dynamicsFactorGraph_count [of hub_robot OptimizerSetting_default 0
      "Some [0, 0, -9.8]" None]
  by (simp add: simple_robot_def simple_l1_def simple_l2_def simple_j1_def
        hub_robot_def hub_link_def)

section \<open>Wrench-balance assembly\<close>

text \<open>
  Claim C3. In \<open>dynamicsFactors\<close>, when every link that is not fixed has at most four
  joints, the call returns, and the wrench-balance constraints it emits are one for each
  such link, in the order of the links, whose wrench variables are the wrench keys of the
  link's joints: as many as the link has joints. When some link that is not fixed has five
  joints or more, the call fails with \<open>UnsupportedLinkDegree\<close> and returns no constraint.
\<close>

theorem dynamicsFactors_wrench_arity:
  "((\<forall>link\<in>set (links robot). \<not> isFixed link \<longrightarrow> length (getJoints link) \<le> 4) \<longrightarrow>
      (\<exists>graph. dynamicsFactors opt robot t gravity planar_axis = Inr graph \<and>
         map wrench_keys (filter (\<lambda>f. family_of f = WrenchBalance) graph) =
           map (\<lambda>link. map (\<lambda>j. WrenchKey (link_id link) j t) (getJoints link))
             (filter (\<lambda>link. \<not> isFixed link) (links robot)) \<and>
         map (\<lambda>f. length (wrench_keys f)) (filter (\<lambda>f. family_of f = WrenchBalance) graph) =
           map (\<lambda>link. length (getJoints link))
             (filter (\<lambda>link. \<not> isFixed link) (links robot)))) \<and>
   ((\<exists>link\<in>set (links robot). \<not> isFixed link \<and> 5 \<le> length (getJoints link)) \<longrightarrow>
      dynamicsFactors opt robot t gravity planar_axis = Inl UnsupportedLinkDegree)"
proof (intro conjI impI)
  assume ok: "\<forall>link\<in>set (links robot). \<not> isFixed link \<longrightarrow> length (getJoints link) \<le> 4"
  from dynamicsFactors_links_ok [OF ok, of opt t gravity "[]"]
  obtain ws where ws: "dynamicsFactors_links opt t gravity (links robot) [] = Inr ws"
    "\<forall>f\<in>set ws. family_of f = WrenchBalance"
    "map wrench_keys ws =
       map (\<lambda>link. map (\<lambda>j. WrenchKey (link_id link) j t) (getJoints link))
         (filter (\<lambda>link. \<not> isFixed link) (links robot))"
    by auto
  let ?graph = "ws @ concat (map (dynamicsFactors_joint opt t planar_axis) (joints robot))"
  have res: "dynamicsFactors opt robot t gravity planar_axis = Inr ?graph"
    by (simp add: dynamicsFactors_def ws)
  from ws(2) have "filter (\<lambda>f. family_of f = WrenchBalance) ws = ws"
    by (simp add: filter_id_conv)
  then have bal: "filter (\<lambda>f. family_of f = WrenchBalance) ?graph = ws"
    by (simp add: joint_factors_not_balance)
  have keys: "map wrench_keys (filter (\<lambda>f. family_of f = WrenchBalance) ?graph) =
       map (\<lambda>link. map (\<lambda>j. WrenchKey (link_id link) j t) (getJoints link))
         (filter (\<lambda>link. \<not> isFixed link) (links robot))"
    unfolding bal by (rule ws(3))
  have "map (\<lambda>f. length (wrench_keys f)) (filter (\<lambda>f. family_of f = WrenchBalance) ?graph) =
       map length (map wrench_keys (filter (\<lambda>f. family_of f = WrenchBalance) ?graph))"
    by simp
  also have "\<dots> = map (\<lambda>link. length (getJoints link))
         (filter (\<lambda>link. \<not> isFixed link) (links robot))"
    unfolding keys by simp
  finally show "\<exists>graph. dynamicsFactors opt robot t gravity planar_axis = Inr graph \<and>
         map wrench_keys (filter (\<lambda>f. family_of f = WrenchBalance) graph) =
           map (\<lambda>link. map (\<lambda>j. WrenchKey (link_id link) j t) (getJoints link))
             (filter (\<lambda>link. \<not> isFixed link) (links robot)) \<and>
         map (\<lambda>f. length (wrench_keys f)) (filter (\<lambda>f. family_of f = WrenchBalance) graph) =
           map (\<lambda>link. length (getJoints link))
             (filter (\<lambda>link. \<not> isFixed link) (links robot))"
    using res keys by blast
next
  assume "\<exists>link\<in>set (links robot). \<not> isFixed link \<and> 5 \<le> length (getJoints link)"
  from dynamicsFactors_links_fail [OF this]
  show "dynamicsFactors opt robot t gravity planar_axis = Inl UnsupportedLinkDegree"
    by (simp add: dynamicsFactors_def)
qed

theorem dynamicsFactors_wrench_arity_witness:
  "(\<exists>graph. dynamicsFactors OptimizerSetting_default simple_robot 0 None None = Inr graph \<and>
      map wrench_keys (filter (\<lambda>f. family_of f = WrenchBalance) graph) = [[WrenchKey 1 0 0]] \<and>
      map (\<lambda>f. length (wrench_keys f)) (filter (\<lambda>f. family_of f = WrenchBalance) graph) = [1]) \<and>
   dynamicsFactors OptimizerSetting_default hub_robot 0 None None = Inl UnsupportedLinkDegree"
  using dynamicsFactors_wrench_arity [of simple_robot OptimizerSetting_default 0 None None]
    dynamicsFactors_wrench_arity [of hub_robot OptimizerSetting_default 0 None None]
  by (simp add: simple_robot_def simple_l1_def simple_l2_def simple_j1_def
        hub_robot_def hub_link_def)

section \<open>Collocation constraints\<close>

lemma collocationFactors_joint_supported:
  assumes "collocation = Euler \<or> collocation = Trapezoidal"
  shows "\<exists>fs. collocationFactors_joint t dt collocation joint = Inr fs \<and> length fs = 2"
  using assms by (auto simp add: collocationFactors_joint_def Let_def)

lemma collocationFactors_joint_unsupported:
  assumes "collocation \<noteq> Euler" "collocation \<noteq> Trapezoidal"
  shows "collocationFactors_joint t dt collocation joint = Inl UnsupportedCollocation"
  using assms by (cases collocation) (simp_all add: collocationFactors_joint_def Let_def)

lemma collocationFactors_joints_supported:
  assumes "collocation = Euler \<or> collocation = Trapezoidal"
  shows "collocationFactors_joints t dt collocation js graph =
     Inr (graph @ concat (map (\<lambda>joint. projr (collocationFactors_joint t dt collocation joint)) js))"
proof (induction js arbitrary: graph)
  case Nil
  show ?case by simp
next
  case (Cons joint rest)
  from collocationFactors_joint_supported [OF assms, of t dt joint]
  obtain fs where "collocationFactors_joint t dt collocation joint = Inr fs" by blast
  then show ?case by (simp add: Cons.IH)
qed

lemma multiPhaseCollocationFactors_joint_supported:
  assumes "collocation = Euler \<or> collocation = Trapezoidal"
  shows "\<exists>fs. multiPhaseCollocationFactors_joint t phase collocation joint = Inr fs \<and>
           length fs = 2"
  using assms by (auto simp add: multiPhaseCollocationFactors_joint_def Let_def)

lemma multiPhaseCollocationFactors_joint_unsupported:
  assumes "collocation \<noteq> Euler" "collocation \<noteq> Trapezoidal"
  shows "multiPhaseCollocationFactors_joint t phase collocation joint =
     Inl UnsupportedCollocation"
  using assms by (simp add: multiPhaseCollocationFactors_joint_def Let_def)

lemma multiPhaseCollocationFactors_joints_supported:
  assumes "collocation = Euler \<or> collocation = Trapezoidal"
  shows "multiPhaseCollocationFactors_joints t phase collocation js graph =
     Inr (graph @ concat (map (\<lambda>joint.
       projr (multiPhaseCollocationFactors_joint t phase collocation joint)) js))"
proof (induction js arbitrary: graph)
  case Nil
  show ?case by simp
next
  case (Cons joint rest)
  from multiPhaseCollocationFactors_joint_supported [OF assms, of t phase joint]
  obtain fs where "multiPhaseCollocationFactors_joint t phase collocation joint = Inr fs"
    by blast
  then show ?case by (simp add: Cons.IH)
qed

lemma length_concat_pairs:
  "\<forall>x\<in>set xs. length (F x) = 2 \<Longrightarrow> length (concat (map F xs)) = 2 * length xs"
  by (induction xs) simp_all

text \<open>
  Claim C7, as the claim states it, fails on a robot without joints: the scheme is looked
  at inside the loop over the joints, so no joint means no throw, and the call returns
  the empty constraint set.
\<close>

theorem unsupported_collocation_counterexample:
  "collocationFactors lone_robot 0 1 RungeKutta = Inr [] \<and>
   collocationFactors lone_robot 0 1 RungeKutta \<noteq> Inl UnsupportedCollocation \<and>
   multiPhaseCollocationFactors lone_robot 0 0 HermiteSimpson = Inr [] \<and>
   multiPhaseCollocationFactors lone_robot 0 0 HermiteSimpson \<noteq> Inl UnsupportedCollocation"
  by (simp add: collocationFactors_def multiPhaseCollocationFactors_def lone_robot_def)

text \<open>
  Claim C7, amended. For every robot with at least one joint, every time index and step
  size, \<open>collocationFactors\<close> and \<open>multiPhaseCollocationFactors\<close> asked for the
  Runge-Kutta or the Hermite-Simpson scheme fail with \<open>UnsupportedCollocation\<close> and return
  no constraint; for the Euler and the Trapezoidal scheme they raise no error, for every
  robot, and return two constraints per joint.
\<close>

theorem unsupported_collocation:
  "((collocation = RungeKutta \<or> collocation = HermiteSimpson) \<and> joints robot \<noteq> [] \<longrightarrow>
      collocationFactors robot t dt collocation = Inl UnsupportedCollocation \<and>
      multiPhaseCollocationFactors robot t phase collocation = Inl UnsupportedCollocation) \<and>
   (collocation = Euler \<or> collocation = Trapezoidal \<longrightarrow>
      (\<exists>graph. collocationFactors robot t dt collocation = Inr graph \<and>
         length graph = 2 * length (joints robot)) \<and>
      (\<exists>graph. multiPhaseCollocationFactors robot t phase collocation = Inr graph \<and>
         length graph = 2 * length (joints robot)))"
proof (intro conjI impI)
  assume a: "(collocation = RungeKutta \<or> collocation = HermiteSimpson) \<and> joints robot \<noteq> []"
  then obtain joint rest where js: "joints robot = joint # rest"
    by (cases "joints robot") auto
  from a have ne: "collocation \<noteq> Euler" "collocation \<noteq> Trapezoidal" by auto
  show "collocationFactors robot t dt collocation = Inl UnsupportedCollocation"
    by (simp add: collocationFactors_def js collocationFactors_joint_unsupported [OF ne])
  show "multiPhaseCollocationFactors robot t phase collocation = Inl UnsupportedCollocation"
    by (simp add: multiPhaseCollocationFactors_def js
          multiPhaseCollocationFactors_joint_unsupported [OF ne])
next
  assume s: "collocation = Euler \<or> collocation = Trapezoidal"
  have "length (concat (map (\<lambda>joint. projr (collocationFactors_joint t dt collocation joint))
      (joints robot))) = 2 * length (joints robot)"
    by (rule length_concat_pairs)
       (use s in \<open>auto simp add: collocationFactors_joint_def Let_def\<close>)
  then show "\<exists>graph. collocationFactors robot t dt collocation = Inr graph \<and>
         length graph = 2 * length (joints robot)"
    by (simp add: collocationFactors_def collocationFactors_joints_supported [OF s])
  have "length (concat (map (\<lambda>joint.
      projr (multiPhaseCollocationFactors_joint t phase collocation joint))
      (joints robot))) = 2 * length (joints robot)"
    by (rule length_concat_pairs)
       (use s in \<open>auto simp add: multiPhaseCollocationFactors_joint_def Let_def\<close>)
  then show "\<exists>graph. multiPhaseCollocationFactors robot t phase collocation = Inr graph \<and>
         length graph = 2 * length (joints robot)"
    by (simp add: multiPhaseCollocationFactors_def
          multiPhaseCollocationFactors_joints_supported [OF s])
qed

theorem unsupported_collocation_witness:
  "collocationFactors simple_robot 0 1 RungeKutta = Inl UnsupportedCollocation \<and>
   multiPhaseCollocationFactors simple_robot 0 0 RungeKutta = Inl UnsupportedCollocation \<and>
   (\<exists>graph. collocationFactors simple_robot 0 1 Euler = Inr graph \<and> length graph = 2) \<and>
   (\<exists>graph. multiPhaseCollocationFactors simple_robot 0 0 Euler = Inr graph \<and>
      length graph = 2)"
  using unsupported_collocation [of RungeKutta simple_robot 0 1 0]
    unsupported_collocation [of Euler simple_robot 0 1 0]
  by (simp add: simple_robot_def)

text \<open>
  Claim C2. For every joint of the robot, step size \<open>dt\<close> and time index \<open>t\<close>, the
  Euler collocation constraints that \<open>collocationFactors\<close> emits for the joint are the
  expression factors of \<open>q0 + dt * v0 - q1\<close> and \<open>v0 + dt * a0 - v1\<close> with measurement 0.
  At values that hold the angle, the velocity and the acceleration of the joint, their
  residuals are those two numbers, so both are zero exactly when
  \<open>q1 = q0 + dt * v0\<close> and \<open>v1 = v0 + dt * a0\<close>, and the residual of the first is not
  zero for any other angle at \<open>t + 1\<close>.
\<close>

theorem collocationFactors_Euler_residual:
  fixes joint :: RobotJoint and t :: int and dt :: real
  defines "j \<equiv> joint_id joint"
  defines "hq \<equiv> Minus (Plus (Leaf (JointAngleKey j t))
                              (ScalarMultiply dt (Leaf (JointVelKey j t))))
                        (Leaf (JointAngleKey j (t + 1)))"
    and "hv \<equiv> Minus (Plus (Leaf (JointVelKey j t))
                             (ScalarMultiply dt (Leaf (JointAccelKey j t))))
                       (Leaf (JointVelKey j (t + 1)))"
  assumes joint: "joint \<in> set (joints robot)"
    and q0: "atDouble vals (JointAngleKey j t) = Inr q0"
    and q1: "atDouble vals (JointAngleKey j (t + 1)) = Inr q1"
    and v0: "atDouble vals (JointVelKey j t) = Inr v0"
    and v1: "atDouble vals (JointVelKey j (t + 1)) = Inr v1"
    and a0: "atDouble vals (JointAccelKey j t) = Inr a0"
  shows "\<exists>graph. collocationFactors robot t dt Euler = Inr graph \<and>
      length graph = 2 * length (joints robot) \<and>
      ExpressionFactor hq 0 (Constrained_All 1) \<in> set graph \<and>
      ExpressionFactor hv 0 (Constrained_All 1) \<in> set graph \<and>
      unwhitenedError vals hq 0 = Inr (q0 + dt * v0 - q1) \<and>
      unwhitenedError vals hv 0 = Inr (v0 + dt * a0 - v1) \<and>
      ((unwhitenedError vals hq 0 = Inr 0 \<and> unwhitenedError vals hv 0 = Inr 0) \<longleftrightarrow>
         (q1 = q0 + dt * v0 \<and> v1 = v0 + dt * a0)) \<and>
      (q1 \<noteq> q0 + dt * v0 \<longrightarrow> unwhitenedError vals hq 0 \<noteq> Inr 0)"
proof -
  let ?F = "\<lambda>joint. projr (collocationFactors_joint t dt Euler joint)"
  let ?graph = "concat (map ?F (joints robot))"
  have res: "collocationFactors robot t dt Euler = Inr ?graph"
    by (simp add: collocationFactors_def collocationFactors_joints_supported)
  have len: "length ?graph = 2 * length (joints robot)"
    by (rule length_concat_pairs) (simp add: collocationFactors_joint_def Let_def)
  have Fj: "?F joint = [ExpressionFactor hq 0 (Constrained_All 1),
                        ExpressionFactor hv 0 (Constrained_All 1)]"
    by (simp add: collocationFactors_joint_def Let_def hq_def hv_def j_def)
  from joint have "set (?F joint) \<subseteq> set ?graph" by auto
  with Fj have mem: "ExpressionFactor hq 0 (Constrained_All 1) \<in> set ?graph"
    "ExpressionFactor hv 0 (Constrained_All 1) \<in> set ?graph"
    by simp_all
  have eq: "unwhitenedError vals hq 0 = Inr (q0 + dt * v0 - q1)"
    by (simp add: unwhitenedError_def hq_def q0 q1 v0)
  have ev: "unwhitenedError vals hv 0 = Inr (v0 + dt * a0 - v1)"
    by (simp add: unwhitenedError_def hv_def v0 v1 a0)
  have iff: "(unwhitenedError vals hq 0 = Inr 0 \<and> unwhitenedError vals hv 0 = Inr 0) \<longleftrightarrow>
         (q1 = q0 + dt * v0 \<and> v1 = v0 + dt * a0)"
    unfolding eq ev by auto
  have pert: "q1 \<noteq> q0 + dt * v0 \<longrightarrow> unwhitenedError vals hq 0 \<noteq> Inr 0"
    unfolding eq by auto
  from res len mem eq ev iff pert show ?thesis by blast
qed

theorem collocationFactors_Euler_residual_witness:
  "(\<exists>graph. collocationFactors simple_robot 0 0.5 Euler = Inr graph \<and>
      length graph = 2 \<and>
      unwhitenedError Euler_values
        (Minus (Plus (Leaf (JointAngleKey 0 0)) (ScalarMultiply 0.5 (Leaf (JointVelKey 0 0))))
               (Leaf (JointAngleKey 0 1))) 0 = Inr 0 \<and>
      unwhitenedError Euler_values
        (Minus (Plus (Leaf (JointVelKey 0 0)) (ScalarMultiply 0.5 (Leaf (JointAccelKey 0 0))))
               (Leaf (JointVelKey 0 1))) 0 = Inr 0) \<and>
   unwhitenedError Euler_values_perturbed
        (Minus (Plus (Leaf (JointAngleKey 0 0)) (ScalarMultiply 0.5 (Leaf (JointVelKey 0 0))))
               (Leaf (JointAngleKey 0 1))) 0 \<noteq> Inr 0"
  using collocationFactors_Euler_residual [where joint = simple_j1 and robot = simple_robot
      and vals = Euler_values and t = 0 and dt = "0.5" and ?q0.0 = 1 and ?q1.0 = 2
      and ?v0.0 = 2 and ?v1.0 = "3.5" and ?a0.0 = 3]
    collocationFactors_Euler_residual [where joint = simple_j1 and robot = simple_robot
      and vals = Euler_values_perturbed and t = 0 and dt = "0.5" and ?q0.0 = 1
      and ?q1.0 = "2.25" and ?v0.0 = 2 and ?v1.0 = "3.5" and ?a0.0 = 3]
  by (auto simp add: simple_robot_def simple_j1_def Euler_values_def
        Euler_values_perturbed_def atDouble_def)

section \<open>Whole trajectories\<close>

lemma dynamicsFactorGraph_ok:
  assumes "\<forall>link\<in>set (links robot). \<not> isFixed link \<longrightarrow> length (getJoints link) \<le> 4"
  shows "\<exists>g. dynamicsFactorGraph opt robot t gravity planar_axis contacts = Inr g"
proof -
  from dynamicsFactors_links_ok [OF assms, of opt t gravity "[]"]
  obtain ws where "dynamicsFactors_links opt t gravity (links robot) [] = Inr ws" by auto
  then show ?thesis by (simp add: dynamicsFactorGraph_def dynamicsFactors_def)
qed

lemma dynamicsFactorGraph_fail:
  assumes "\<not> (\<forall>link\<in>set (links robot). \<not> isFixed link \<longrightarrow> length (getJoints link) \<le> 4)"
  shows "dynamicsFactorGraph opt robot t gravity planar_axis contacts = Inl UnsupportedLinkDegree"
proof -
  from assms have "\<exists>link\<in>set (links robot). \<not> isFixed link \<and> 5 \<le> length (getJoints link)"
    by auto
  from dynamicsFactors_links_fail [OF this] show ?thesis
    by (simp add: dynamicsFactorGraph_def dynamicsFactors_def)
qed

lemma trajectoryFG_loop_closed:
  assumes D: "\<And>s. dynamicsFactorGraph opt robot s gravity planar_axis None = Inr (D s)"
    and C: "\<And>s. collocationFactors robot s dt collocation = Inr (C s)"
  shows "trajectoryFG_loop opt robot N dt collocation gravity planar_axis t graph =
     Inr (graph @ concat (map (\<lambda>s. D s @ (if s < N then C s else [])) [t..N]))"
proof (induction "nat (N + 1 - t)" arbitrary: t graph)
  case 0
  then have "\<not> t < N + 1" by simp
  then show ?case
    by (subst trajectoryFG_loop.simps) simp
next
  case (Suc n)
  then have le: "t \<le> N" and n: "n = nat (N + 1 - (t + 1))" by simp_all
  have up: "[t..N] = t # [t + 1..N]" using le by (simp add: upto_rec1)
  have IH: "trajectoryFG_loop opt robot N dt collocation gravity planar_axis (t + 1) graph' =
     Inr (graph' @ concat (map (\<lambda>s. D s @ (if s < N then C s else [])) [t + 1..N]))"
    for graph'
    by (rule Suc.hyps(1) [OF n])
  show ?case
  proof (cases "t < N")
    case True
    then show ?thesis
      by (subst trajectoryFG_loop.simps) (simp add: D C IH up)
  next
    case False
    with le have tN: "t = N" by simp
    have last: "trajectoryFG_loop opt robot N dt collocation gravity planar_axis (N + 1)
        (graph @ D N) = Inr (graph @ D N)"
      using IH [of "graph @ D N"] by (simp add: tN)
    show ?thesis
      by (subst trajectoryFG_loop.simps) (simp add: D tN last)
  qed
qed

text \<open>
  Claim C5. For every robot whose free links have at most four joints, every step count
  \<open>N\<close>, step size and supported scheme (Euler or Trapezoidal), \<open>trajectoryFG\<close> returns
  the concatenation, for \<open>t = 0..N\<close> in order, of the per-instant set \<open>D t\<close> of
  \<open>dynamicsFactorGraph\<close> followed, when \<open>t < N\<close>, by the collocation set \<open>C t\<close> of
  \<open>collocationFactors\<close> for the pair \<open>(t, t + 1)\<close>. For a robot with a free link of
  five joints or more the first instant throws, when there is one.
\<close>

theorem trajectoryFG_interleaved:
  assumes s: "collocation = Euler \<or> collocation = Trapezoidal"
  shows "if (\<forall>link\<in>set (links robot). \<not> isFixed link \<longrightarrow> length (getJoints link) \<le> 4)
     then (\<exists>D C.
       (\<forall>t. dynamicsFactorGraph opt robot t gravity planar_axis None = Inr (D t)) \<and>
       (\<forall>t. collocationFactors robot t dt collocation = Inr (C t)) \<and>
       trajectoryFG opt robot N dt collocation gravity planar_axis =
         Inr (concat (map (\<lambda>t. D t @ (if t < N then C t else [])) [0..N])))
     else trajectoryFG opt robot N dt collocation gravity planar_axis =
         (if 0 \<le> N then Inl UnsupportedLinkDegree else Inr [])"
proof (cases "\<forall>link\<in>set (links robot). \<not> isFixed link \<longrightarrow> length (getJoints link) \<le> 4")
  case deg: True
  define D where "D t = projr (dynamicsFactorGraph opt robot t gravity planar_axis None)" for t
  define C where "C t = projr (collocationFactors robot t dt collocation)" for t
  have D: "dynamicsFactorGraph opt robot t gravity planar_axis None = Inr (D t)" for t
    using dynamicsFactorGraph_ok [OF deg, of opt t gravity planar_axis None]
    by (auto simp add: D_def)
  have C: "collocationFactors robot t dt collocation = Inr (C t)" for t
    by (simp add: C_def collocationFactors_def collocationFactors_joints_supported [OF s])
  from trajectoryFG_loop_closed [of opt robot gravity planar_axis D dt collocation C N 0 "[]",
      OF D C]
  have "trajectoryFG opt robot N dt collocation gravity planar_axis =
       Inr (concat (map (\<lambda>t. D t @ (if t < N then C t else [])) [0..N]))"
    by (simp add: trajectoryFG_def)
  with D C have "\<exists>D C.
       (\<forall>t. dynamicsFactorGraph opt robot t gravity planar_axis None = Inr (D t)) \<and>
       (\<forall>t. collocationFactors robot t dt collocation = Inr (C t)) \<and>
       trajectoryFG opt robot N dt collocation gravity planar_axis =
         Inr (concat (map (\<lambda>t. D t @ (if t < N then C t else [])) [0..N]))"
    by blast
  with deg show ?thesis by simp
next
  case False
  have r: "trajectoryFG opt robot N dt collocation gravity planar_axis =
         (if 0 \<le> N then Inl UnsupportedLinkDegree else Inr [])"
    unfolding trajectoryFG_def
    by (subst trajectoryFG_loop.simps) (simp add: dynamicsFactorGraph_fail [OF False])
  show ?thesis
    by (subst if_not_P [OF False]) (rule r)
qed

theorem trajectoryFG_interleaved_witness:
  "(\<exists>D0 C0 D1.
     dynamicsFactorGraph OptimizerSetting_default simple_robot 0 None None None = Inr D0 \<and>
     collocationFactors simple_robot 0 0.5 Euler = Inr C0 \<and>
     dynamicsFactorGraph OptimizerSetting_default simple_robot 1 None None None = Inr D1 \<and>
     trajectoryFG OptimizerSetting_default simple_robot 1 0.5 Euler None None =
       Inr (D0 @ C0 @ D1) \<and>
     length (D0 @ C0 @ D1) = 20) \<and>
   trajectoryFG OptimizerSetting_default hub_robot 1 0.5 Euler None None =
     Inl UnsupportedLinkDegree"
proof -
  from trajectoryFG_interleaved [where collocation = Euler and robot = simple_robot
      and opt = OptimizerSetting_default and gravity = None and planar_axis = None
      and dt = "0.5" and N = 1]
  obtain D C where
    D: "\<And>t. dynamicsFactorGraph OptimizerSetting_default simple_robot t None None None =
           Inr (D t)"
    and C: "\<And>t. collocationFactors simple_robot t 0.5 Euler = Inr (C t)"
    and T: "trajectoryFG OptimizerSetting_default simple_robot 1 0.5 Euler None None =
       Inr (concat (map (\<lambda>t. D t @ (if t < 1 then C t else [])) [0..1]))"
    by (auto simp add: simple_robot_def simple_l1_def simple_l2_def)
  have up: "[0..1::int] = [0, 1]" by (simp add: upto_rec1)
  have len: "length (D 0 @ C 0 @ D 1) = 20"
    using D [of 0, symmetric] D [of 1, symmetric] C [of 0, symmetric]
    by (simp add: dynamicsFactorGraph_def dynamicsFactors_def wrenchFactor_def
          qFactors_def vFactors_def aFactors_def dynamicsFactors_joint_def
          collocationFactors_def collocationFactors_joint_def
          simple_robot_def simple_l1_def simple_l2_def simple_j1_def Let_def)
  from T have "trajectoryFG OptimizerSetting_default simple_robot 1 0.5 Euler None None =
       Inr (D 0 @ C 0 @ D 1)"
    by (simp add: up)
  with D [of 0] C [of 0] D [of 1] len
  have first: "\<exists>D0 C0 D1.
     dynamicsFactorGraph OptimizerSetting_default simple_robot 0 None None None = Inr D0 \<and>
     collocationFactors simple_robot 0 0.5 Euler = Inr C0 \<and>
     dynamicsFactorGraph OptimizerSetting_default simple_robot 1 None None None = Inr D1 \<and>
     trajectoryFG OptimizerSetting_default simple_robot 1 0.5 Euler None None =
       Inr (D0 @ C0 @ D1) \<and>
     length (D0 @ C0 @ D1) = 20"
    by blast
  from trajectoryFG_interleaved [where collocation = Euler and robot = hub_robot
      and opt = OptimizerSetting_default and gravity = None and planar_axis = None
      and dt = "0.5" and N = 1]
  have second: "trajectoryFG OptimizerSetting_default hub_robot 1 0.5 Euler None None =
     Inl UnsupportedLinkDegree"
    by (simp add: hub_robot_def hub_link_def)
  from first second show ?thesis by blast
qed

section \<open>Multi-phase trajectories\<close>

lemma multiPhase_inphase_loop_closed:
  assumes D: "\<And>s. dynamicsFactorGraph opt robot s gravity planar_axis None = Inr (D s)"
  shows "multiPhase_inphase_loop opt robot gravity planar_axis steps k t graph =
     Inr (t + max 0 (steps - 1 - k), graph @ concat (map D [t + 1..t + (steps - 1 - k)]))"
proof (induction "nat (steps - 1 - k)" arbitrary: k t graph)
  case 0
  then have "\<not> k < steps - 1" by simp
  then show ?case
    by (subst multiPhase_inphase_loop.simps) simp
next
  case (Suc n)
  then have lt: "k < steps - 1" and n: "n = nat (steps - 1 - (k + 1))" by simp_all
  have up: "[t + 1..t + (steps - 1 - k)] = (t + 1) # [t + 1 + 1..t + (steps - 1 - k)]"
    using lt by (simp add: upto_rec1)
  have IH: "multiPhase_inphase_loop opt robot gravity planar_axis steps (k + 1) (t + 1) graph' =
     Inr (t + 1 + max 0 (steps - 1 - (k + 1)),
          graph' @ concat (map D [t + 1 + 1..t + 1 + (steps - 1 - (k + 1))]))" for graph'
    by (rule Suc.hyps(1) [OF n])
  have eq: "t + 1 + (steps - 1 - (k + 1)) = t + (steps - 1 - k)" by simp
  have "multiPhase_inphase_loop opt robot gravity planar_axis steps k t graph =
      multiPhase_inphase_loop opt robot gravity planar_axis steps (k + 1) (t + 1)
        (graph @ D (t + 1))"
    by (subst multiPhase_inphase_loop.simps) (use lt in \<open>simp add: D\<close>)
  also note IH
  also have "Inr (t + 1 + max 0 (steps - 1 - (k + 1)),
          (graph @ D (t + 1)) @ concat (map D [t + 1 + 1..t + 1 + (steps - 1 - (k + 1))])) =
      Inr (t + max 0 (steps - 1 - k), graph @ concat (map D [t + 1..t + (steps - 1 - k)]))"
    unfolding eq up using lt by simp
  finally show ?case .
qed

lemma multiPhase_collocation_steps_closed:
  assumes C: "\<And>s. multiPhaseCollocationFactors robot s (int phase) collocation = Inr (C s)"
  shows "multiPhase_collocation_steps robot collocation steps phase k t graph =
     Inr (t + max 0 (steps - k), graph @ concat (map C [t..t + (steps - k) - 1]))"
proof (induction "nat (steps - k)" arbitrary: k t graph)
  case 0
  then have "\<not> k < steps" by simp
  then show ?case
    by (subst multiPhase_collocation_steps.simps) simp
next
  case (Suc n)
  then have lt: "k < steps" and n: "n = nat (steps - (k + 1))" by simp_all
  have up: "[t..t + (steps - k) - 1] = t # [t + 1..t + (steps - k) - 1]"
    using lt by (simp add: upto_rec1)
  have IH: "multiPhase_collocation_steps robot collocation steps phase (k + 1) (t + 1) graph' =
     Inr (t + 1 + max 0 (steps - (k + 1)),
          graph' @ concat (map C [t + 1..t + 1 + (steps - (k + 1)) - 1]))" for graph'
    by (rule Suc.hyps(1) [OF n])
  have eq: "t + 1 + (steps - (k + 1)) - 1 = t + (steps - k) - 1" by simp
  have "multiPhase_collocation_steps robot collocation steps phase k t graph =
      multiPhase_collocation_steps robot collocation steps phase (k + 1) (t + 1)
        (graph @ C t)"
    by (subst multiPhase_collocation_steps.simps) (use lt in \<open>simp add: C\<close>)
  also note IH
  also have "Inr (t + 1 + max 0 (steps - (k + 1)),
          (graph @ C t) @ concat (map C [t + 1..t + 1 + (steps - (k + 1)) - 1])) =
      Inr (t + max 0 (steps - k), graph @ concat (map C [t..t + (steps - k) - 1]))"
    unfolding eq up using lt by simp
  finally show ?case .
qed

lemma dynamics_start_Suc:
  "p < length phase_steps \<Longrightarrow>
   dynamics_start phase_steps (Suc p) = dynamics_start phase_steps p + max 1 (phase_steps ! p)"
  by (simp add: dynamics_start_def take_Suc_conv_app_nth)

lemma collocation_start_Suc:
  "p < length phase_steps \<Longrightarrow>
   collocation_start phase_steps (Suc p) =
     collocation_start phase_steps p + max 0 (phase_steps ! p)"
  by (simp add: collocation_start_def take_Suc_conv_app_nth)

lemma starts_agree:
  assumes "\<forall>n\<in>set phase_steps. 1 \<le> n"
  shows "dynamics_start phase_steps p = sum_list (take p phase_steps) \<and>
         collocation_start phase_steps p = sum_list (take p phase_steps)"
proof -
  have "\<forall>n\<in>set (take p phase_steps). 1 \<le> n"
    using assms by (auto dest: in_set_takeD)
  then have "map (max 1) (take p phase_steps) = take p phase_steps"
    and "map (max 0) (take p phase_steps) = take p phase_steps"
    by (auto intro!: map_idI simp add: max_def)
  then show ?thesis by (simp add: dynamics_start_def collocation_start_def)
qed

lemma multiPhase_dynamics_loop_closed:
  assumes D: "\<And>p s. p < length robots \<Longrightarrow>
      dynamicsFactorGraph opt (robots ! p) s gravity planar_axis None = Inr (D p s)"
    and len: "length phase_steps = length robots"
    and tr: "length robots - 1 \<le> length transition_graphs"
    and ph: "phase \<le> length robots"
    and t: "t = dynamics_start phase_steps phase"
  shows "multiPhase_dynamics_loop opt robots phase_steps transition_graphs gravity planar_axis
       phase t graph =
     Inr (graph @ concat (map (\<lambda>p.
        concat (map (D p) [dynamics_start phase_steps p + 1..
                           dynamics_start phase_steps p + phase_steps ! p - 1]) @
        (if p + 1 = length robots
         then D p (dynamics_start phase_steps p + max 1 (phase_steps ! p))
         else transition_graphs ! p)) [phase..<length robots]))"
  using ph t
proof (induction "length robots - phase" arbitrary: phase t graph)
  case 0
  then have "\<not> phase < length robots" by simp
  then show ?case
    by (subst multiPhase_dynamics_loop.simps) simp
next
  case (Suc n)
  then have lt: "phase < length robots" and n: "n = length robots - (phase + 1)" by simp_all
  from lt len have lt2: "phase < length phase_steps" by simp
  let ?s = "dynamics_start phase_steps phase"
  let ?n = "phase_steps ! phase"
  have inph: "multiPhase_inphase_loop opt (robots ! phase) gravity planar_axis ?n 0 t graph =
     Inr (?s + max 1 ?n - 1, graph @ concat (map (D phase) [?s + 1..?s + ?n - 1]))"
    using multiPhase_inphase_loop_closed [of opt "robots ! phase" gravity planar_axis "D phase"
        ?n 0 t graph, OF D [OF lt]] Suc.prems(2)
    by (simp add: max_def algebra_simps)
  have t1: "?s + max 1 ?n - 1 + 1 = dynamics_start phase_steps (phase + 1)"
    using dynamics_start_Suc [OF lt2] by simp
  have IH: "multiPhase_dynamics_loop opt robots phase_steps transition_graphs gravity
       planar_axis (phase + 1) (?s + max 1 ?n - 1 + 1) graph' =
     Inr (graph' @ concat (map (\<lambda>p.
        concat (map (D p) [dynamics_start phase_steps p + 1..
                           dynamics_start phase_steps p + phase_steps ! p - 1]) @
        (if p + 1 = length robots
         then D p (dynamics_start phase_steps p + max 1 (phase_steps ! p))
         else transition_graphs ! p)) [phase + 1..<length robots]))" for graph'
    using Suc.hyps(1) [OF n _ t1] lt by simp
  have up: "[phase..<length robots] = phase # [phase + 1..<length robots]"
    using lt by (simp add: upt_rec)
  show ?case
  proof (cases "phase + 1 = length robots")
    case True
    then have c: "int phase = int (length robots) - 1" by simp
    have t2: "?s + max 1 ?n - 1 + 1 = ?s + max 1 ?n" by simp
    have "multiPhase_dynamics_loop opt robots phase_steps transition_graphs gravity
        planar_axis phase t graph =
      multiPhase_dynamics_loop opt robots phase_steps transition_graphs gravity
        planar_axis (phase + 1) (?s + max 1 ?n - 1 + 1)
        ((graph @ concat (map (D phase) [?s + 1..?s + ?n - 1])) @ D phase (?s + max 1 ?n))"
      by (subst multiPhase_dynamics_loop.simps) (simp add: lt lt2 inph c D [OF lt])
    also note IH
    finally show ?thesis
      unfolding up using True by simp
  next
    case False
    then have c: "int phase \<noteq> int (length robots) - 1" by linarith
    from False lt tr have lt3: "phase < length transition_graphs" by simp
    have "multiPhase_dynamics_loop opt robots phase_steps transition_graphs gravity
        planar_axis phase t graph =
      multiPhase_dynamics_loop opt robots phase_steps transition_graphs gravity
        planar_axis (phase + 1) (?s + max 1 ?n - 1 + 1)
        ((graph @ concat (map (D phase) [?s + 1..?s + ?n - 1])) @ transition_graphs ! phase)"
      by (subst multiPhase_dynamics_loop.simps) (simp add: lt lt2 lt3 inph c)
    also note IH
    finally show ?thesis
      unfolding up using False by simp
  qed
qed

lemma multiPhase_collocation_loop_closed:
  assumes C: "\<And>p s. p < length robots \<Longrightarrow>
      multiPhaseCollocationFactors (robots ! p) s (int p) collocation = Inr (C p s)"
    and len: "length phase_steps = length robots"
    and ph: "phase \<le> length robots"
    and t: "t = collocation_start phase_steps phase"
  shows "multiPhase_collocation_loop robots phase_steps collocation phase t graph =
     Inr (graph @ concat (map (\<lambda>p.
        concat (map (C p) [collocation_start phase_steps p..
                           collocation_start phase_steps p + phase_steps ! p - 1]))
        [phase..<length robots]))"
  using ph t
proof (induction "length robots - phase" arbitrary: phase t graph)
  case 0
  then have "\<not> phase < length robots" by simp
  then show ?case
    by (subst multiPhase_collocation_loop.simps) simp
next
  case (Suc n)
  then have lt: "phase < length robots" and n: "n = length robots - (phase + 1)" by simp_all
  from lt len have lt2: "phase < length phase_steps" by simp
  let ?s = "collocation_start phase_steps phase"
  let ?n = "phase_steps ! phase"
  have steps: "multiPhase_collocation_steps (robots ! phase) collocation ?n phase 0 t graph =
     Inr (?s + max 0 ?n, graph @ concat (map (C phase) [?s..?s + ?n - 1]))"
    using multiPhase_collocation_steps_closed [of "robots ! phase" phase collocation "C phase"
        ?n 0 t graph, OF C [OF lt]] Suc.prems(2)
    by simp
  have t1: "?s + max 0 ?n = collocation_start phase_steps (phase + 1)"
    using collocation_start_Suc [OF lt2] by simp
  have IH: "multiPhase_collocation_loop robots phase_steps collocation (phase + 1)
       (?s + max 0 ?n) graph' =
     Inr (graph' @ concat (map (\<lambda>p.
        concat (map (C p) [collocation_start phase_steps p..
                           collocation_start phase_steps p + phase_steps ! p - 1]))
        [phase + 1..<length robots]))" for graph'
    using Suc.hyps(1) [OF n _ t1] lt by simp
  have up: "[phase..<length robots] = phase # [phase + 1..<length robots]"
    using lt by (simp add: upt_rec)
  have "multiPhase_collocation_loop robots phase_steps collocation phase t graph =
      multiPhase_collocation_loop robots phase_steps collocation (phase + 1) (?s + max 0 ?n)
        (graph @ concat (map (C phase) [?s..?s + ?n - 1]))"
    by (subst multiPhase_collocation_loop.simps) (simp add: lt lt2 steps)
  also note IH
  finally show ?case
    unfolding up by simp
qed

lemma phase_step_joint:
  assumes "collocation = Euler \<or> collocation = Trapezoidal"
    and "atDouble vals (PhaseKey phase) = Inr dt"
  shows "map (factor_residual vals)
           (projr (multiPhaseCollocationFactors_joint t phase collocation joint)) =
         map (factor_residual vals) (projr (collocationFactors_joint t dt collocation joint))"
  using assms
  by (auto simp add: multiPhaseCollocationFactors_joint_def collocationFactors_joint_def
        Let_def unwhitenedError_def split: sum.splits)

lemma phase_step_graph:
  assumes s: "collocation = Euler \<or> collocation = Trapezoidal"
    and ph: "atDouble vals (PhaseKey phase) = Inr dt"
  shows "\<exists>g1 g2. multiPhaseCollocationFactors robot t phase collocation = Inr g1 \<and>
           collocationFactors robot t dt collocation = Inr g2 \<and>
           map (factor_residual vals) g1 = map (factor_residual vals) g2"
proof -
  have "map (factor_residual vals) (concat (map (\<lambda>joint.
          projr (multiPhaseCollocationFactors_joint t phase collocation joint)) js)) =
        map (factor_residual vals) (concat (map (\<lambda>joint.
          projr (collocationFactors_joint t dt collocation joint)) js))" for js
    by (induction js) (simp_all add: phase_step_joint [OF s ph])
  then show ?thesis
    by (simp add: multiPhaseCollocationFactors_def collocationFactors_def
          multiPhaseCollocationFactors_joints_supported [OF s]
          collocationFactors_joints_supported [OF s])
qed

text \<open>
  Claim C4. For a non-empty list of robots with as many step counts and a transition set
  for each boundary between two phases, \<open>multiPhaseTrajectoryFG\<close> returns: the
  per-instant set of instant 0 for the first robot; then for each phase \<open>p\<close> of \<open>n\<close>
  steps, whose first part starts at \<open>dynamics_start p\<close>, the per-instant sets of its robot
  for the \<open>n - 1\<close> instants inside it, and at its boundary the transition set
  \<open>transition_graphs ! p\<close>, or for the last phase one more per-instant set; and last,
  for each phase, one set of \<open>multiPhaseCollocationFactors\<close> for each of its steps, from
  \<open>collocation_start p\<close> on, with the index of the phase. The residuals of such a set, at
  values that give the phase key of \<open>p\<close> the value \<open>dt\<close>, are those of the fixed-step
  collocation set for the step \<open>dt\<close>: the variable of the phase key is the step size.
  When every step count is at least 1, both parts start phase \<open>p\<close> at the sum of the step
  counts before it. \<open>D p t\<close> and \<open>C p t\<close> are what the two callees return; no free link
  has more than four joints and the scheme is Euler or Trapezoidal.
\<close>

theorem multiPhaseTrajectoryFG_assembly:
  assumes ne: "robots \<noteq> []"
    and len: "length phase_steps = length robots"
    and tr: "length transition_graphs = length robots - 1"
    and deg: "\<forall>robot\<in>set robots. \<forall>link\<in>set (links robot).
                \<not> isFixed link \<longrightarrow> length (getJoints link) \<le> 4"
    and s: "collocation = Euler \<or> collocation = Trapezoidal"
  shows "(\<exists>D C.
     (\<forall>p<length robots. \<forall>t.
        dynamicsFactorGraph opt (robots ! p) t gravity planar_axis None = Inr (D p t)) \<and>
     (\<forall>p<length robots. \<forall>t.
        multiPhaseCollocationFactors (robots ! p) t (int p) collocation = Inr (C p t)) \<and>
     (\<forall>p<length robots. \<forall>t vals dt. atDouble vals (PhaseKey (int p)) = Inr dt \<longrightarrow>
        (\<exists>fixed. collocationFactors (robots ! p) t dt collocation = Inr fixed \<and>
           map (factor_residual vals) (C p t) = map (factor_residual vals) fixed)) \<and>
     multiPhaseTrajectoryFG opt robots phase_steps transition_graphs collocation gravity
         planar_axis =
       Inr (D 0 0 @
            concat (map (\<lambda>p.
              concat (map (D p) [dynamics_start phase_steps p + 1..
                                 dynamics_start phase_steps p + phase_steps ! p - 1]) @
              (if p + 1 = length robots
               then D p (dynamics_start phase_steps p + max 1 (phase_steps ! p))
               else transition_graphs ! p)) [0..<length robots]) @
            concat (map (\<lambda>p.
              concat (map (C p) [collocation_start phase_steps p..
                                 collocation_start phase_steps p + phase_steps ! p - 1]))
              [0..<length robots]))) \<and>
   ((\<forall>n\<in>set phase_steps. 1 \<le> n) \<longrightarrow>
      (\<forall>p. dynamics_start phase_steps p = sum_list (take p phase_steps) \<and>
           collocation_start phase_steps p = sum_list (take p phase_steps)))"
proof -
  define D where
    "D p t = projr (dynamicsFactorGraph opt (robots ! p) t gravity planar_axis None)" for p t
  define C where
    "C p t = projr (multiPhaseCollocationFactors (robots ! p) t (int p) collocation)" for p t
  have D: "dynamicsFactorGraph opt (robots ! p) t gravity planar_axis None = Inr (D p t)"
    if "p < length robots" for p t
  proof -
    from that have "robots ! p \<in> set robots" by simp
    with deg have "\<forall>link\<in>set (links (robots ! p)).
        \<not> isFixed link \<longrightarrow> length (getJoints link) \<le> 4"
      by blast
    from dynamicsFactorGraph_ok [OF this, of opt t gravity planar_axis None]
    show ?thesis by (auto simp add: D_def)
  qed
  have C: "multiPhaseCollocationFactors (robots ! p) t (int p) collocation = Inr (C p t)"
    for p t
    by (simp add: C_def multiPhaseCollocationFactors_def
          multiPhaseCollocationFactors_joints_supported [OF s])
  have step: "\<exists>fixed. collocationFactors (robots ! p) t dt collocation = Inr fixed \<and>
           map (factor_residual vals) (C p t) = map (factor_residual vals) fixed"
    if "atDouble vals (PhaseKey (int p)) = Inr dt" for p t vals dt
    using phase_step_graph [OF s that, of "robots ! p" t] by (auto simp add: C)
  from ne have pos_len: "0 < length robots" by simp
  from tr have tr': "length robots - 1 \<le> length transition_graphs" by simp
  have dyn: "multiPhase_dynamics_loop opt robots phase_steps transition_graphs gravity
       planar_axis 0 0 (D 0 0) =
     Inr (D 0 0 @ concat (map (\<lambda>p.
        concat (map (D p) [dynamics_start phase_steps p + 1..
                           dynamics_start phase_steps p + phase_steps ! p - 1]) @
        (if p + 1 = length robots
         then D p (dynamics_start phase_steps p + max 1 (phase_steps ! p))
         else transition_graphs ! p)) [0..<length robots]))"
    by (rule multiPhase_dynamics_loop_closed [OF D len tr'])
       (simp_all add: dynamics_start_def)
  have col: "multiPhase_collocation_loop robots phase_steps collocation 0 0 graph =
     Inr (graph @ concat (map (\<lambda>p.
        concat (map (C p) [collocation_start phase_steps p..
                           collocation_start phase_steps p + phase_steps ! p - 1]))
        [0..<length robots]))" for graph
    by (rule multiPhase_collocation_loop_closed [OF C len])
       (simp_all add: collocation_start_def)
  have res: "multiPhaseTrajectoryFG opt robots phase_steps transition_graphs collocation
       gravity planar_axis =
       Inr (D 0 0 @
            concat (map (\<lambda>p.
              concat (map (D p) [dynamics_start phase_steps p + 1..
                                 dynamics_start phase_steps p + phase_steps ! p - 1]) @
              (if p + 1 = length robots
               then D p (dynamics_start phase_steps p + max 1 (phase_steps ! p))
               else transition_graphs ! p)) [0..<length robots]) @
            concat (map (\<lambda>p.
              concat (map (C p) [collocation_start phase_steps p..
                                 collocation_start phase_steps p + phase_steps ! p - 1]))
              [0..<length robots]))"
    unfolding multiPhaseTrajectoryFG_def
    by (simp add: ne D [OF pos_len] dyn col)
  have agree: "(\<forall>n\<in>set phase_steps. 1 \<le> n) \<longrightarrow>
      (\<forall>p. dynamics_start phase_steps p = sum_list (take p phase_steps) \<and>
           collocation_start phase_steps p = sum_list (take p phase_steps))"
    using starts_agree [of phase_steps] by blast
  from D C step res agree show ?thesis by blast
qed

theorem multiPhaseTrajectoryFG_assembly_witness:
  "(\<exists>D00 D01 D13 C00 C01 C12.
     dynamicsFactorGraph OptimizerSetting_default simple_robot 0 None None None = Inr D00 \<and>
     dynamicsFactorGraph OptimizerSetting_default simple_robot 1 None None None = Inr D01 \<and>
     dynamicsFactorGraph OptimizerSetting_default simple_robot 3 None None None = Inr D13 \<and>
     multiPhaseCollocationFactors simple_robot 0 0 Euler = Inr C00 \<and>
     multiPhaseCollocationFactors simple_robot 1 0 Euler = Inr C01 \<and>
     multiPhaseCollocationFactors simple_robot 2 1 Euler = Inr C12 \<and>
     multiPhaseTrajectoryFG OptimizerSetting_default [simple_robot, simple_robot] [2, 1]
         [transition_prior] Euler None None =
       Inr (D00 @ D01 @ transition_prior @ D13 @ C00 @ C01 @ C12) \<and>
     length (D00 @ D01 @ transition_prior @ D13 @ C00 @ C01 @ C12) = 34) \<and>
   dynamics_start [2, 1] 1 = 2 \<and> collocation_start [2, 1] 1 = 2"
proof -
  let ?robots = "[simple_robot, simple_robot]"
  let ?steps = "[2, 1::int]"
  have deg: "\<forall>robot\<in>set ?robots. \<forall>link\<in>set (links robot).
                \<not> isFixed link \<longrightarrow> length (getJoints link) \<le> 4"
    by (simp add: simple_robot_def simple_l1_def simple_l2_def)
  from multiPhaseTrajectoryFG_assembly [of ?robots ?steps "[transition_prior]" Euler
      OptimizerSetting_default None None, OF _ _ _ deg]
  obtain D C where
    D: "\<And>p t. p < 2 \<Longrightarrow>
        dynamicsFactorGraph OptimizerSetting_default (?robots ! p) t None None None =
          Inr (D p t)"
    and C: "\<And>p t. p < 2 \<Longrightarrow>
        multiPhaseCollocationFactors (?robots ! p) t (int p) Euler = Inr (C p t)"
    and T: "multiPhaseTrajectoryFG OptimizerSetting_default ?robots ?steps
         [transition_prior] Euler None None =
       Inr (D 0 0 @
            concat (map (\<lambda>p.
              concat (map (D p) [dynamics_start ?steps p + 1..
                                 dynamics_start ?steps p + ?steps ! p - 1]) @
              (if p + 1 = length ?robots
               then D p (dynamics_start ?steps p + max 1 (?steps ! p))
               else [transition_prior] ! p)) [0..<length ?robots]) @
            concat (map (\<lambda>p.
              concat (map (C p) [collocation_start ?steps p..
                                 collocation_start ?steps p + ?steps ! p - 1]))
              [0..<length ?robots]))"
    and S: "dynamics_start ?steps 1 = sum_list (take 1 ?steps)"
      "collocation_start ?steps 1 = sum_list (take 1 ?steps)"
    by auto
  have up: "[0..<length ?robots] = [0, 1]" by (simp add: upt_rec)
  have st: "dynamics_start ?steps 0 = 0" "dynamics_start ?steps (Suc 0) = 2"
    "collocation_start ?steps 0 = 0" "collocation_start ?steps (Suc 0) = 2"
    by (simp_all add: dynamics_start_def collocation_start_def)
  have ups: "[1..1::int] = [1]" "[3..2::int] = []" "[0..1::int] = [0, 1]" "[2..2::int] = [2]"
    by (simp_all add: upto_rec1)
  from T have T': "multiPhaseTrajectoryFG OptimizerSetting_default ?robots ?steps
         [transition_prior] Euler None None =
       Inr (D 0 0 @ D 0 1 @ transition_prior @ D 1 3 @ C 0 0 @ C 0 1 @ C 1 2)"
    unfolding up by (simp add: st ups)
  have len: "length (D 0 0 @ D 0 1 @ transition_prior @ D 1 3 @ C 0 0 @ C 0 1 @ C 1 2) = 34"
    using D [of 0 0, symmetric] D [of 0 1, symmetric] D [of 1 3, symmetric]
      C [of 0 0, symmetric] C [of 0 1, symmetric] C [of 1 2, symmetric]
    by (simp add: dynamicsFactorGraph_def dynamicsFactors_def wrenchFactor_def
          qFactors_def vFactors_def aFactors_def dynamicsFactors_joint_def
          multiPhaseCollocationFactors_def multiPhaseCollocationFactors_joint_def
          transition_prior_def
          simple_robot_def simple_l1_def simple_l2_def simple_j1_def Let_def)
  from D [of 0 0] D [of 0 1] D [of 1 3] C [of 0 0] C [of 0 1] C [of 1 2] T' len
  have first: "\<exists>D00 D01 D13 C00 C01 C12.
     dynamicsFactorGraph OptimizerSetting_default simple_robot 0 None None None = Inr D00 \<and>
     dynamicsFactorGraph OptimizerSetting_default simple_robot 1 None None None = Inr D01 \<and>
     dynamicsFactorGraph OptimizerSetting_default simple_robot 3 None None None = Inr D13 \<and>
     multiPhaseCollocationFactors simple_robot 0 0 Euler = Inr C00 \<and>
     multiPhaseCollocationFactors simple_robot 1 0 Euler = Inr C01 \<and>
     multiPhaseCollocationFactors simple_robot 2 1 Euler = Inr C12 \<and>
     multiPhaseTrajectoryFG OptimizerSetting_default [simple_robot, simple_robot] [2, 1]
         [transition_prior] Euler None None =
       Inr (D00 @ D01 @ transition_prior @ D13 @ C00 @ C01 @ C12) \<and>
     length (D00 @ D01 @ transition_prior @ D13 @ C00 @ C01 @ C12) = 34"
    by (intro exI [of _ "D 0 0"] exI [of _ "D 0 1"] exI [of _ "D 1 3"]
      exI [of _ "C 0 0"] exI [of _ "C 0 1"] exI [of _ "C 1 2"]) simp
  from S have "dynamics_start [2, 1] 1 = 2 \<and> collocation_start [2, 1] 1 = 2"
    by simp
  with first show ?thesis by blast
qed

section \<open>Default values\<close>

lemma Values_insert_all_ok:
  "distinct (map fst kvs) \<Longrightarrow> fst ` set vals \<inter> fst ` set kvs = {} \<Longrightarrow>
   Values_insert_all vals kvs = Inr (vals @ kvs)"
proof (induction kvs arbitrary: vals)
  case Nil
  show ?case by simp
next
  case (Cons kv rest)
  obtain k v where kv: "kv = (k, v)" by (cases kv)
  from Cons.prems kv have "k \<notin> fst ` set vals" by auto
  then have none: "map_of vals k = None" by (simp add: map_of_eq_None_iff)
  have "Values_insert_all (vals @ [(k, v)]) rest = Inr ((vals @ [(k, v)]) @ rest)"
    by (rule Cons.IH) (use Cons.prems kv in auto)
  then show ?case by (simp add: kv Values_insert_def none)
qed

lemma zeroValues_links_ok:
  "distinct (map fst (zero_values @ concat (map (zeroValues_link t) ls))) \<Longrightarrow>
   zeroValues_links t ls zero_values =
     Inr (zero_values @ concat (map (zeroValues_link t) ls))"
proof (induction ls arbitrary: zero_values)
  case Nil
  show ?case by simp
next
  case (Cons link rest)
  from Cons.prems
  have ins: "Values_insert_all zero_values (zeroValues_link t link) =
      Inr (zero_values @ zeroValues_link t link)"
    by (intro Values_insert_all_ok) auto
  have "zeroValues_links t rest (zero_values @ zeroValues_link t link) =
      Inr ((zero_values @ zeroValues_link t link) @ concat (map (zeroValues_link t) rest))"
    by (rule Cons.IH) (use Cons.prems in simp)
  then show ?case by (simp add: ins)
qed

lemma zeroValues_joints_ok:
  "distinct (map fst (zero_values @ concat (map (zeroValues_joint t) js))) \<Longrightarrow>
   zeroValues_joints t js zero_values =
     Inr (zero_values @ concat (map (zeroValues_joint t) js))"
proof (induction js arbitrary: zero_values)
  case Nil
  show ?case by simp
next
  case (Cons joint rest)
  from Cons.prems
  have ins: "Values_insert_all zero_values (zeroValues_joint t joint) =
      Inr (zero_values @ zeroValues_joint t joint)"
    by (intro Values_insert_all_ok) auto
  have "zeroValues_joints t rest (zero_values @ zeroValues_joint t joint) =
      Inr ((zero_values @ zeroValues_joint t joint) @ concat (map (zeroValues_joint t) rest))"
    by (rule Cons.IH) (use Cons.prems in simp)
  then show ?case by (simp add: ins)
qed

lemma link_keys:
  "fst ` set (concat (map (zeroValues_link t) ls)) =
     (\<Union>link\<in>set ls. {PoseKey (link_id link) t, TwistKey (link_id link) t,
        TwistAccelKey (link_id link) t})"
  by (induction ls) (auto simp add: zeroValues_link_def Let_def)

lemma joint_keys:
  "fst ` set (concat (map (zeroValues_joint t) js)) =
     (\<Union>joint\<in>set js. {WrenchKey (parentLink_id joint) (joint_id joint) t,
        WrenchKey (childLink_id joint) (joint_id joint) t, TorqueKey (joint_id joint) t,
        JointAngleKey (joint_id joint) t, JointVelKey (joint_id joint) t,
        JointAccelKey (joint_id joint) t})"
  by (induction js) (auto simp add: zeroValues_joint_def Let_def)

lemma distinct_link_keys:
  "distinct (map link_id ls) \<Longrightarrow> distinct (map fst (concat (map (zeroValues_link t) ls)))"
proof (induction ls)
  case Nil
  show ?case by simp
next
  case (Cons link rest)
  have "fst ` set (zeroValues_link t link) \<inter>
        fst ` set (concat (map (zeroValues_link t) rest)) = {}"
    unfolding link_keys using Cons.prems by (auto simp add: zeroValues_link_def Let_def)
  moreover have "distinct (map fst (zeroValues_link t link))"
    by (simp add: zeroValues_link_def Let_def)
  ultimately show ?case using Cons by (simp add: image_Un)
qed

lemma distinct_joint_keys:
  "distinct (map joint_id js) \<Longrightarrow>
   \<forall>joint\<in>set js. parentLink_id joint \<noteq> childLink_id joint \<Longrightarrow>
   distinct (map fst (concat (map (zeroValues_joint t) js)))"
proof (induction js)
  case Nil
  show ?case by simp
next
  case (Cons joint rest)
  have "fst ` set (zeroValues_joint t joint) \<inter>
        fst ` set (concat (map (zeroValues_joint t) rest)) = {}"
    unfolding joint_keys using Cons.prems by (auto simp add: zeroValues_joint_def Let_def)
  moreover have "distinct (map fst (zeroValues_joint t joint))"
    using Cons.prems by (simp add: zeroValues_joint_def Let_def)
  ultimately show ?case using Cons by (simp add: image_Un)
qed

lemma distinct_zeroValues_entries:
  assumes "distinct_ids robot"
  shows "distinct (map fst (zeroValues_entries robot t))"
proof -
  have "fst ` set (concat (map (zeroValues_link t) (links robot))) \<inter>
        fst ` set (concat (map (zeroValues_joint t) (joints robot))) = {}"
    unfolding link_keys joint_keys by auto
  with assms show ?thesis
    by (simp add: zeroValues_entries_def distinct_ids_def distinct_link_keys
          distinct_joint_keys)
qed

lemma zeroValues_ok:
  assumes "distinct_ids robot"
  shows "zeroValues robot t = Inr (zeroValues_entries robot t)"
proof -
  from distinct_zeroValues_entries [OF assms, of t]
  have d: "distinct (map fst (concat (map (zeroValues_link t) (links robot)) @
        concat (map (zeroValues_joint t) (joints robot))))"
    by (simp add: zeroValues_entries_def)
  then have "distinct (map fst ([] @ concat (map (zeroValues_link t) (links robot))))"
    by simp
  from zeroValues_links_ok [OF this]
  have l: "zeroValues_links t (links robot) [] =
      Inr (concat (map (zeroValues_link t) (links robot)))"
    by simp
  show ?thesis
    by (simp add: zeroValues_def l zeroValues_joints_ok [OF d] zeroValues_entries_def)
qed

lemma length_zeroValues_entries:
  "length (zeroValues_entries robot t) = 3 * length (links robot) + 6 * length (joints robot)"
proof -
  have "length (concat (map (zeroValues_link t) ls)) = 3 * length ls" for ls
    by (induction ls) (simp_all add: zeroValues_link_def Let_def)
  moreover have "length (concat (map (zeroValues_joint t) js)) = 6 * length js" for js
    by (induction js) (simp_all add: zeroValues_joint_def Let_def)
  ultimately show ?thesis by (simp add: zeroValues_entries_def)
qed

lemma zeroValues_entries_link:
  assumes "distinct_ids robot" "link \<in> set (links robot)"
  shows "set (zeroValues_link t link) \<subseteq> set (zeroValues_entries robot t)"
  using assms(2) by (auto simp add: zeroValues_entries_def)

lemma zeroValues_entries_joint:
  assumes "joint \<in> set (joints robot)"
  shows "set (zeroValues_joint t joint) \<subseteq> set (zeroValues_entries robot t)"
  using assms by (auto simp add: zeroValues_entries_def)

lemma map_of_zeroValues_entries:
  assumes "distinct_ids robot" "(k, v) \<in> set (zeroValues_entries robot t)"
  shows "map_of (zeroValues_entries robot t) k = Some v"
  using distinct_zeroValues_entries [OF assms(1), of t] assms(2)
  by (rule map_of_is_SomeI)

lemma Values_insert_all_fails:
  "\<not> (distinct (map fst kvs) \<and> fst ` set vals \<inter> fst ` set kvs = {}) \<Longrightarrow>
   \<exists>k. Values_insert_all vals kvs = Inl (ValuesKeyAlreadyExists k)"
proof (induction kvs arbitrary: vals)
  case Nil
  then show ?case by simp
next
  case (Cons kv rest)
  obtain k v where kv: "kv = (k, v)" by (cases kv)
  show ?case
  proof (cases "k \<in> fst ` set vals")
    case True
    then obtain v' where "map_of vals k = Some v'"
      by (cases "map_of vals k") (auto simp add: map_of_eq_None_iff)
    then show ?thesis by (simp add: kv Values_insert_def)
  next
    case False
    then have none: "map_of vals k = None" by (simp add: map_of_eq_None_iff)
    from Cons.prems False kv
    have "\<not> (distinct (map fst rest) \<and>
        fst ` set (vals @ [(k, v)]) \<inter> fst ` set rest = {})"
      by auto
    from Cons.IH [OF this] show ?thesis by (simp add: kv Values_insert_def none)
  qed
qed

lemma zeroValues_links_fails:
  "\<not> distinct (map fst (zero_values @ concat (map (zeroValues_link t) ls))) \<Longrightarrow>
   distinct (map fst zero_values) \<Longrightarrow>
   \<exists>k. zeroValues_links t ls zero_values = Inl (ValuesKeyAlreadyExists k)"
proof (induction ls arbitrary: zero_values)
  case Nil
  then show ?case by simp
next
  case (Cons link rest)
  show ?case
  proof (cases "distinct (map fst (zeroValues_link t link)) \<and>
      fst ` set zero_values \<inter> fst ` set (zeroValues_link t link) = {}")
    case True
    then have ins: "Values_insert_all zero_values (zeroValues_link t link) =
        Inr (zero_values @ zeroValues_link t link)"
      by (intro Values_insert_all_ok) simp_all
    from True Cons.prems(2)
    have d: "distinct (map fst (zero_values @ zeroValues_link t link))" by auto
    from Cons.prems(1)
    have "\<not> distinct (map fst ((zero_values @ zeroValues_link t link) @
        concat (map (zeroValues_link t) rest)))"
      by simp
    from Cons.IH [OF this d] show ?thesis by (simp add: ins)
  next
    case False
    from Values_insert_all_fails [OF this] show ?thesis by auto
  qed
qed

lemma zeroValues_joints_fails:
  "\<not> distinct (map fst (zero_values @ concat (map (zeroValues_joint t) js))) \<Longrightarrow>
   distinct (map fst zero_values) \<Longrightarrow>
   \<exists>k. zeroValues_joints t js zero_values = Inl (ValuesKeyAlreadyExists k)"
proof (induction js arbitrary: zero_values)
  case Nil
  then show ?case by simp
next
  case (Cons joint rest)
  show ?case
  proof (cases "distinct (map fst (zeroValues_joint t joint)) \<and>
      fst ` set zero_values \<inter> fst ` set (zeroValues_joint t joint) = {}")
    case True
    then have ins: "Values_insert_all zero_values (zeroValues_joint t joint) =
        Inr (zero_values @ zeroValues_joint t joint)"
      by (intro Values_insert_all_ok) simp_all
    from True Cons.prems(2)
    have d: "distinct (map fst (zero_values @ zeroValues_joint t joint))" by auto
    from Cons.prems(1)
    have "\<not> distinct (map fst ((zero_values @ zeroValues_joint t joint) @
        concat (map (zeroValues_joint t) rest)))"
      by simp
    from Cons.IH [OF this d] show ?thesis by (simp add: ins)
  next
    case False
    from Values_insert_all_fails [OF this] show ?thesis by auto
  qed
qed

lemma distinct_link_keys_conv:
  "distinct (map fst (concat (map (zeroValues_link t) ls))) \<Longrightarrow> distinct (map link_id ls)"
proof (induction ls)
  case Nil
  show ?case by simp
next
  case (Cons link rest)
  have "link_id link \<notin> link_id ` set rest"
  proof
    assume "link_id link \<in> link_id ` set rest"
    then obtain l where l: "l \<in> set rest" "link_id l = link_id link" by auto
    from l(1) have "PoseKey (link_id l) t \<in>
        fst ` set (concat (map (zeroValues_link t) rest))"
      unfolding link_keys by blast
    with l(2) have "PoseKey (link_id link) t \<in>
        fst ` set (concat (map (zeroValues_link t) rest))"
      by simp
    moreover have "PoseKey (link_id link) t \<in> fst ` set (zeroValues_link t link)"
      by (simp add: zeroValues_link_def Let_def)
    ultimately show False using Cons.prems by auto
  qed
  with Cons show ?case by simp
qed

lemma distinct_joint_keys_conv:
  assumes "distinct (map fst (concat (map (zeroValues_joint t) js)))"
  shows "distinct (map joint_id js) \<and>
     (\<forall>joint\<in>set js. parentLink_id joint \<noteq> childLink_id joint)"
  using assms
proof (induction js)
  case Nil
  show ?case by simp
next
  case (Cons joint rest)
  have "joint_id joint \<notin> joint_id ` set rest"
  proof
    assume "joint_id joint \<in> joint_id ` set rest"
    then obtain j where j: "j \<in> set rest" "joint_id j = joint_id joint" by auto
    from j(1) have "TorqueKey (joint_id j) t \<in>
        fst ` set (concat (map (zeroValues_joint t) rest))"
      unfolding joint_keys by blast
    with j(2) have "TorqueKey (joint_id joint) t \<in>
        fst ` set (concat (map (zeroValues_joint t) rest))"
      by simp
    moreover have "TorqueKey (joint_id joint) t \<in> fst ` set (zeroValues_joint t joint)"
      by (simp add: zeroValues_joint_def Let_def)
    ultimately show False using Cons.prems by auto
  qed
  moreover from Cons.prems have "parentLink_id joint \<noteq> childLink_id joint"
    by (auto simp add: zeroValues_joint_def Let_def)
  ultimately show ?case using Cons by simp
qed

lemma zeroValues_fails:
  assumes "\<not> distinct_ids robot"
  shows "\<exists>k. zeroValues robot t = Inl (ValuesKeyAlreadyExists k)"
proof (cases "distinct (map fst (concat (map (zeroValues_link t) (links robot))))")
  case False
  then have "\<not> distinct (map fst ([] @ concat (map (zeroValues_link t) (links robot))))"
    by simp
  from zeroValues_links_fails [OF this] show ?thesis
    by (auto simp add: zeroValues_def)
next
  case True
  then have "distinct (map fst ([] @ concat (map (zeroValues_link t) (links robot))))"
    by simp
  from zeroValues_links_ok [OF this]
  have l: "zeroValues_links t (links robot) [] =
      Inr (concat (map (zeroValues_link t) (links robot)))"
    by simp
  have "\<not> distinct (map fst (concat (map (zeroValues_joint t) (joints robot))))"
    using assms distinct_link_keys_conv [OF True] distinct_joint_keys_conv [of t "joints robot"]
    by (auto simp add: distinct_ids_def)
  then have "\<not> distinct (map fst (concat (map (zeroValues_link t) (links robot)) @
      concat (map (zeroValues_joint t) (joints robot))))"
    by simp
  from zeroValues_joints_fails [OF this True] show ?thesis
    by (simp add: zeroValues_def l)
qed

text \<open>
  Claim C9. For a robot whose ids tell its links and its joints apart and whose joints
  each tie two different links, \<open>zeroValues\<close> at time \<open>t\<close> returns an assignment of
  exactly 3 values per link and 6 per joint, with no key twice, in which the pose of every
  link is the pose \<open>Twcom\<close> of that link (its centre of mass at rest in the world frame),
  the twist and the twist acceleration of every link and the two wrenches of every joint
  are the zero 6-vector, and the torque, the angle, the velocity and the acceleration of
  every joint are the number zero. For any other robot two of the keys are the same and
  the call throws \<open>ValuesKeyAlreadyExists\<close>.
\<close>

theorem zeroValues_contents:
  "if distinct_ids robot then
    (\<exists>vals. zeroValues robot t = Inr vals \<and>
     length vals = 3 * length (links robot) + 6 * length (joints robot) \<and>
     distinct (map fst vals) \<and>
     (\<forall>link\<in>set (links robot).
        map_of vals (PoseKey (link_id link) t) = Some (Pose3_val (Twcom link)) \<and>
        map_of vals (TwistKey (link_id link) t) = Some (Vector_val [0, 0, 0, 0, 0, 0]) \<and>
        map_of vals (TwistAccelKey (link_id link) t) = Some (Vector_val [0, 0, 0, 0, 0, 0])) \<and>
     (\<forall>joint\<in>set (joints robot).
        map_of vals (WrenchKey (parentLink_id joint) (joint_id joint) t) =
          Some (Vector_val [0, 0, 0, 0, 0, 0]) \<and>
        map_of vals (WrenchKey (childLink_id joint) (joint_id joint) t) =
          Some (Vector_val [0, 0, 0, 0, 0, 0]) \<and>
        map_of vals (TorqueKey (joint_id joint) t) = Some (double_val 0) \<and>
        map_of vals (JointAngleKey (joint_id joint) t) = Some (double_val 0) \<and>
        map_of vals (JointVelKey (joint_id joint) t) = Some (double_val 0) \<and>
        map_of vals (JointAccelKey (joint_id joint) t) = Some (double_val 0)))
   else (\<exists>k. zeroValues robot t = Inl (ValuesKeyAlreadyExists k))"
proof (cases "distinct_ids robot")
  case False
  with zeroValues_fails [OF False, of t] show ?thesis by simp
next
  case wf: True
  let ?vals = "zeroValues_entries robot t"
  have z6: "Vector6_Zero = [0, 0, 0, 0, 0, 0]"
    by (simp add: Vector6_Zero_def numeral_eq_Suc)
  have links: "map_of ?vals (PoseKey (link_id link) t) = Some (Pose3_val (Twcom link)) \<and>
        map_of ?vals (TwistKey (link_id link) t) = Some (Vector_val [0, 0, 0, 0, 0, 0]) \<and>
        map_of ?vals (TwistAccelKey (link_id link) t) = Some (Vector_val [0, 0, 0, 0, 0, 0])"
    if "link \<in> set (links robot)" for link
    using zeroValues_entries_link [OF wf that, of t]
    by (intro conjI map_of_zeroValues_entries [OF wf])
       (auto simp add: zeroValues_link_def Let_def z6)
  have joints: "map_of ?vals (WrenchKey (parentLink_id joint) (joint_id joint) t) =
          Some (Vector_val [0, 0, 0, 0, 0, 0]) \<and>
        map_of ?vals (WrenchKey (childLink_id joint) (joint_id joint) t) =
          Some (Vector_val [0, 0, 0, 0, 0, 0]) \<and>
        map_of ?vals (TorqueKey (joint_id joint) t) = Some (double_val 0) \<and>
        map_of ?vals (JointAngleKey (joint_id joint) t) = Some (double_val 0) \<and>
        map_of ?vals (JointVelKey (joint_id joint) t) = Some (double_val 0) \<and>
        map_of ?vals (JointAccelKey (joint_id joint) t) = Some (double_val 0)"
    if "joint \<in> set (joints robot)" for joint
    using zeroValues_entries_joint [OF that, of t]
    by (intro conjI map_of_zeroValues_entries [OF wf])
       (auto simp add: zeroValues_joint_def Let_def z6)
  from zeroValues_ok [OF wf, of t] length_zeroValues_entries [of robot t]
    distinct_zeroValues_entries [OF wf, of t] links joints
  have "\<exists>vals. zeroValues robot t = Inr vals \<and>
     length vals = 3 * length (links robot) + 6 * length (joints robot) \<and>
     distinct (map fst vals) \<and>
     (\<forall>link\<in>set (links robot).
        map_of vals (PoseKey (link_id link) t) = Some (Pose3_val (Twcom link)) \<and>
        map_of vals (TwistKey (link_id link) t) = Some (Vector_val [0, 0, 0, 0, 0, 0]) \<and>
        map_of vals (TwistAccelKey (link_id link) t) = Some (Vector_val [0, 0, 0, 0, 0, 0])) \<and>
     (\<forall>joint\<in>set (joints robot).
        map_of vals (WrenchKey (parentLink_id joint) (joint_id joint) t) =
          Some (Vector_val [0, 0, 0, 0, 0, 0]) \<and>
        map_of vals (WrenchKey (childLink_id joint) (joint_id joint) t) =
          Some (Vector_val [0, 0, 0, 0, 0, 0]) \<and>
        map_of vals (TorqueKey (joint_id joint) t) = Some (double_val 0) \<and>
        map_of vals (JointAngleKey (joint_id joint) t) = Some (double_val 0) \<and>
        map_of vals (JointVelKey (joint_id joint) t) = Some (double_val 0) \<and>
        map_of vals (JointAccelKey (joint_id joint) t) = Some (double_val 0))"
    by blast
  with wf show ?thesis by simp
qed

theorem zeroValues_contents_witness:
  "(\<exists>vals. zeroValues simple_robot 0 = Inr vals \<and> length vals = 12 \<and>
     map_of vals (PoseKey 0 0) = Some (Pose3_val (Pose3 [1, 0, 0, 0, 1, 0, 0, 0, 1] [0, 0, 1])) \<and>
     map_of vals (PoseKey 1 0) = Some (Pose3_val (Pose3 [1, 0, 0, 0, 1, 0, 0, 0, 1] [0, 0, 3])) \<and>
     map_of vals (TwistKey 1 0) = Some (Vector_val [0, 0, 0, 0, 0, 0]) \<and>
     map_of vals (WrenchKey 0 0 0) = Some (Vector_val [0, 0, 0, 0, 0, 0]) \<and>
     map_of vals (WrenchKey 1 0 0) = Some (Vector_val [0, 0, 0, 0, 0, 0]) \<and>
     map_of vals (TorqueKey 0 0) = Some (double_val 0) \<and>
     map_of vals (JointAngleKey 0 0) = Some (double_val 0)) \<and>
   (\<exists>k. zeroValues self_joint_robot 0 = Inl (ValuesKeyAlreadyExists k))"
  using zeroValues_contents [of simple_robot 0] zeroValues_contents [of self_joint_robot 0]
  by (auto simp add: distinct_ids_def simple_robot_def simple_l1_def simple_l2_def
        simple_j1_def self_joint_robot_def)

section \<open>Reading the joint vectors back\<close>

lemma joint_doubles_loop_zero:
  assumes z: "\<forall>joint\<in>set (joints robot). atDouble result (Key (joint_id joint) t) = Inr 0"
  shows "0 \<le> idx \<Longrightarrow>
     joint_doubles_loop Key robot result t idx (replicate (length (joints robot)) 0) =
       Inr (replicate (length (joints robot)) 0)"
proof (induction "nat (numJoints robot - idx)" arbitrary: idx)
  case 0
  then have "\<not> idx < numJoints robot" by simp
  then show ?case
    by (subst joint_doubles_loop.simps) simp
next
  case (Suc n)
  then have lt: "idx < numJoints robot" and n: "n = nat (numJoints robot - (idx + 1))"
    by simp_all
  from lt Suc.prems have inr: "nat idx < length (joints robot)"
    by (simp add: numJoints_def)
  then have "joints robot ! nat idx \<in> set (joints robot)" by simp
  with z have at: "atDouble result (Key (joint_id (joints robot ! nat idx)) t) = Inr 0"
    by blast
  have upd: "(replicate (length (joints robot)) (0::real))[nat idx := 0] =
      replicate (length (joints robot)) 0"
    using inr by (intro nth_equalityI) (auto simp add: nth_list_update)
  have "joint_doubles_loop Key robot result t idx (replicate (length (joints robot)) 0) =
      joint_doubles_loop Key robot result t (idx + 1) (replicate (length (joints robot)) 0)"
    by (subst joint_doubles_loop.simps) (use lt inr Suc.prems in \<open>simp add: at upd\<close>)
  also have "\<dots> = Inr (replicate (length (joints robot)) 0)"
    by (rule Suc.hyps(1) [OF n]) (use Suc.prems in simp)
  finally show ?case .
qed

text \<open>
  Claim C6. For a robot with distinct ids and every time index, \<open>zeroValues\<close> returns
  an assignment from which \<open>jointAngles\<close>, \<open>jointVels\<close> and \<open>jointAccels\<close> each read
  back the zero vector whose length is the number of joints. For any other robot
  \<open>zeroValues\<close> throws and builds no assignment to read back.
\<close>

theorem zeroValues_read_back:
  "if distinct_ids robot then
     (\<exists>vals. zeroValues robot t = Inr vals \<and>
        jointAngles robot vals t = Inr (replicate (length (joints robot)) 0) \<and>
        jointVels robot vals t = Inr (replicate (length (joints robot)) 0) \<and>
        jointAccels robot vals t = Inr (replicate (length (joints robot)) 0))
   else (\<exists>k. zeroValues robot t = Inl (ValuesKeyAlreadyExists k))"
proof (cases "distinct_ids robot")
  case False
  show ?thesis
    by (subst if_not_P [OF False]) (rule zeroValues_fails [OF False])
next
  case wf: True
  let ?vals = "zeroValues_entries robot t"
  have at: "atDouble ?vals k = Inr 0"
    if "(k, double_val 0) \<in> set (zeroValues_entries robot t)" for k
    using map_of_zeroValues_entries [OF wf that] by (simp add: atDouble_def)
  have q: "\<forall>joint\<in>set (joints robot). atDouble ?vals (JointAngleKey (joint_id joint) t) = Inr 0"
    using zeroValues_entries_joint [of _ robot t]
    by (auto intro!: at simp add: zeroValues_joint_def Let_def)
  have v: "\<forall>joint\<in>set (joints robot). atDouble ?vals (JointVelKey (joint_id joint) t) = Inr 0"
    using zeroValues_entries_joint [of _ robot t]
    by (auto intro!: at simp add: zeroValues_joint_def Let_def)
  have a: "\<forall>joint\<in>set (joints robot). atDouble ?vals (JointAccelKey (joint_id joint) t) = Inr 0"
    using zeroValues_entries_joint [of _ robot t]
    by (auto intro!: at simp add: zeroValues_joint_def Let_def)
  have n: "nat (numJoints robot) = length (joints robot)" by (simp add: numJoints_def)
  from joint_doubles_loop_zero [where Key = JointAngleKey and idx = 0, OF q]
    joint_doubles_loop_zero [where Key = JointVelKey and idx = 0, OF v]
    joint_doubles_loop_zero [where Key = JointAccelKey and idx = 0, OF a]
    zeroValues_ok [OF wf, of t]
  have r: "\<exists>vals. zeroValues robot t = Inr vals \<and>
        jointAngles robot vals t = Inr (replicate (length (joints robot)) 0) \<and>
        jointVels robot vals t = Inr (replicate (length (joints robot)) 0) \<and>
        jointAccels robot vals t = Inr (replicate (length (joints robot)) 0)"
    by (simp add: jointAngles_def jointVels_def jointAccels_def n)
  show ?thesis
    by (subst if_P [OF wf]) (rule r)
qed

theorem zeroValues_read_back_witness:
  "(\<exists>vals. zeroValues simple_robot 0 = Inr vals \<and>
     jointAngles simple_robot vals 0 = Inr [0] \<and>
     jointVels simple_robot vals 0 = Inr [0] \<and>
     jointAccels simple_robot vals 0 = Inr [0]) \<and>
   (\<exists>k. zeroValues self_joint_robot 0 = Inl (ValuesKeyAlreadyExists k))"
  using zeroValues_read_back [of simple_robot 0] zeroValues_read_back [of self_joint_robot 0]
  by (auto simp add: distinct_ids_def simple_robot_def simple_l1_def simple_l2_def
        simple_j1_def self_joint_robot_def)

section \<open>Default values of a trajectory\<close>

lemma is_PhaseKey_key_time: "is_PhaseKey k \<longleftrightarrow> key_time k = None"
  by (cases k) simp_all

lemma key_time_zeroValues_entries:
  "k \<in> fst ` set (zeroValues_entries robot t) \<Longrightarrow> key_time k = Some t"
  unfolding zeroValues_entries_def set_append image_Un link_keys joint_keys
  by auto

lemma zeroValuesTrajectory_steps_closed:
  assumes wf: "distinct_ids robot"
  shows "\<forall>k\<in>fst ` set zv. \<exists>s<t. key_time k = Some s \<Longrightarrow>
     zeroValuesTrajectory_steps robot N t zv =
       Inr (zv @ concat (map (zeroValues_entries robot) [t..N]))"
proof (induction "nat (N + 1 - t)" arbitrary: t zv)
  case 0
  then have "\<not> t \<le> N" by simp
  then show ?case
    by (subst zeroValuesTrajectory_steps.simps) simp
next
  case (Suc n)
  then have le: "t \<le> N" and n: "n = nat (N + 1 - (t + 1))" by simp_all
  have up: "[t..N] = t # [t + 1..N]" using le by (simp add: upto_rec1)
  have disj: "fst ` set zv \<inter> fst ` set (zeroValues_entries robot t) = {}"
  proof -
    have False if "k \<in> fst ` set zv" "k \<in> fst ` set (zeroValues_entries robot t)" for k
    proof -
      from Suc.prems that(1) obtain s where "s < t" "key_time k = Some s" by blast
      with key_time_zeroValues_entries [OF that(2)] show False by simp
    qed
    then show ?thesis by blast
  qed
  have ins: "Values_insert_all zv (zeroValues_entries robot t) =
      Inr (zv @ zeroValues_entries robot t)"
    by (rule Values_insert_all_ok [OF distinct_zeroValues_entries [OF wf] disj])
  have inv: "\<forall>k\<in>fst ` set (zv @ zeroValues_entries robot t). \<exists>s<t + 1. key_time k = Some s"
  proof
    fix k assume "k \<in> fst ` set (zv @ zeroValues_entries robot t)"
    then consider "k \<in> fst ` set zv" | "k \<in> fst ` set (zeroValues_entries robot t)"
      by auto
    then show "\<exists>s<t + 1. key_time k = Some s"
    proof cases
      case 1
      with Suc.prems obtain s where "s < t" "key_time k = Some s" by blast
      then show ?thesis by (intro exI [of _ s]) simp
    next
      case 2
      from key_time_zeroValues_entries [OF this] show ?thesis by simp
    qed
  qed
  have "zeroValuesTrajectory_steps robot N t zv =
      zeroValuesTrajectory_steps robot N (t + 1) (zv @ zeroValues_entries robot t)"
    by (subst zeroValuesTrajectory_steps.simps) (simp add: le zeroValues_ok [OF wf] ins)
  also have "\<dots> = Inr ((zv @ zeroValues_entries robot t) @
      concat (map (zeroValues_entries robot) [t + 1..N]))"
    by (rule Suc.hyps(1) [OF n inv])
  finally show ?case by (simp add: up)
qed

lemma zeroValuesTrajectory_phases_closed:
  "\<forall>p. PhaseKey p \<in> fst ` set zv \<longrightarrow> p < phase \<Longrightarrow>
   zeroValuesTrajectory_phases P phase zv =
     Inr (zv @ map (\<lambda>p. (PhaseKey p, double_val 0)) [phase..P])"
proof (induction "nat (P + 1 - phase)" arbitrary: phase zv)
  case 0
  then have "\<not> phase \<le> P" by simp
  then show ?case
    by (subst zeroValuesTrajectory_phases.simps) simp
next
  case (Suc n)
  then have le: "phase \<le> P" and n: "n = nat (P + 1 - (phase + 1))" by simp_all
  have up: "[phase..P] = phase # [phase + 1..P]" using le by (simp add: upto_rec1)
  from Suc.prems have "PhaseKey phase \<notin> fst ` set zv" by auto
  then have none: "map_of zv (PhaseKey phase) = None" by (simp add: map_of_eq_None_iff)
  have inv: "\<forall>p. PhaseKey p \<in> fst ` set (zv @ [(PhaseKey phase, double_val 0)]) \<longrightarrow>
      p < phase + 1"
    using Suc.prems by auto
  have "zeroValuesTrajectory_phases P phase zv =
      zeroValuesTrajectory_phases P (phase + 1) (zv @ [(PhaseKey phase, double_val 0)])"
    by (subst zeroValuesTrajectory_phases.simps) (simp add: le Values_insert_def none)
  also have "\<dots> = Inr ((zv @ [(PhaseKey phase, double_val 0)]) @
      map (\<lambda>p. (PhaseKey p, double_val 0)) [phase + 1..P])"
    by (rule Suc.hyps(1) [OF n inv])
  finally show ?case by (simp add: up)
qed

lemma no_PhaseKey_in_instants:
  assumes "k \<in> fst ` set (concat (map (zeroValues_entries robot) ts))"
  shows "\<not> is_PhaseKey k"
proof -
  from assms obtain t where "k \<in> fst ` set (zeroValues_entries robot t)"
    by auto
  from key_time_zeroValues_entries [OF this] show ?thesis
    by (simp add: is_PhaseKey_key_time)
qed

lemma map_of_phase_entries:
  "map_of (phase_entries P) (PhaseKey p) =
     (if 0 \<le> p \<and> p \<le> P then Some (double_val 0) else None)"
proof (cases "0 \<le> p \<and> p \<le> P")
  case True
  have "distinct (map fst (phase_entries P))"
    by (simp add: phase_entries_def distinct_map comp_def inj_on_def)
  moreover from True have "(PhaseKey p, double_val 0) \<in> set (phase_entries P)"
    by (auto simp add: phase_entries_def)
  ultimately have "map_of (phase_entries P) (PhaseKey p) = Some (double_val 0)"
    by (rule map_of_is_SomeI)
  with True show ?thesis by simp
next
  case False
  then have "PhaseKey p \<notin> fst ` set (phase_entries P)"
    by (auto simp add: phase_entries_def)
  then have "map_of (phase_entries P) (PhaseKey p) = None"
    by (simp add: map_of_eq_None_iff)
  with False show ?thesis by simp
qed

lemma zeroValuesTrajectory_fails:
  assumes "\<not> distinct_ids robot" "0 \<le> N"
  shows "\<exists>k. zeroValuesTrajectory robot N P = Inl (ValuesKeyAlreadyExists k)"
proof -
  from zeroValues_fails [OF assms(1), of 0]
  obtain k where "zeroValues robot 0 = Inl (ValuesKeyAlreadyExists k)" by blast
  then have "zeroValuesTrajectory_steps robot N 0 [] = Inl (ValuesKeyAlreadyExists k)"
    by (subst zeroValuesTrajectory_steps.simps) (simp add: assms(2))
  then show ?thesis by (simp add: zeroValuesTrajectory_def)
qed

text \<open>
  Claim C10. For a robot with distinct ids, every step count \<open>N\<close> and phase count
  \<open>P\<close>, \<open>zeroValuesTrajectory\<close> returns the entries of \<open>zeroValues\<close> for
  \<open>t = 0..N\<close>, in order, followed when \<open>P > 0\<close> by a zero phase duration for every
  phase index \<open>0..P\<close>: \<open>P + 1\<close> phase keys, one more than there are phases. When
  \<open>P \<le> 0\<close> it holds no phase key. For any other robot and \<open>N \<ge> 0\<close> the first
  instant throws.
\<close>

theorem zeroValuesTrajectory_contents:
  "if distinct_ids robot then
     (\<exists>Z vals. (\<forall>t. zeroValues robot t = Inr (Z t)) \<and>
        zeroValuesTrajectory robot N P = Inr vals \<and>
        vals = concat (map Z [0..N]) @
               (if 0 < P then map (\<lambda>phase. (PhaseKey phase, double_val 0)) [0..P] else []) \<and>
        length (filter (\<lambda>(k, v). is_PhaseKey k) vals) = (if 0 < P then nat (P + 1) else 0) \<and>
        (\<forall>phase. map_of vals (PhaseKey phase) =
           (if 0 < P \<and> 0 \<le> phase \<and> phase \<le> P then Some (double_val 0) else None)))
   else (0 \<le> N \<longrightarrow> (\<exists>k. zeroValuesTrajectory robot N P = Inl (ValuesKeyAlreadyExists k)))"
proof (cases "distinct_ids robot")
  case False
  have "0 \<le> N \<longrightarrow> (\<exists>k. zeroValuesTrajectory robot N P = Inl (ValuesKeyAlreadyExists k))"
    using zeroValuesTrajectory_fails [OF False] by blast
  then show ?thesis
    by (subst if_not_P [OF False])
next
  case wf: True
  let ?Z = "zeroValues_entries robot"
  let ?inst = "concat (map ?Z [0..N])"
  let ?vals = "?inst @ (if 0 < P then phase_entries P else [])"
  have Z: "\<forall>t. zeroValues robot t = Inr (?Z t)"
    by (simp add: zeroValues_ok [OF wf])
  have steps: "zeroValuesTrajectory_steps robot N 0 [] = Inr ?inst"
    using zeroValuesTrajectory_steps_closed [OF wf, of "[]" 0 N] by simp
  have nophase: "PhaseKey p \<notin> fst ` set ?inst" for p
    using no_PhaseKey_in_instants [of "PhaseKey p" robot "[0..N]"] by auto
  then have phases: "zeroValuesTrajectory_phases P 0 ?inst = Inr (?inst @ phase_entries P)"
    using zeroValuesTrajectory_phases_closed [of ?inst 0 P]
    by (simp add: phase_entries_def)
  have res: "zeroValuesTrajectory robot N P = Inr ?vals"
    by (simp add: zeroValuesTrajectory_def steps phases)
  have "\<not> is_PhaseKey (fst kv)" if "kv \<in> set ?inst" for kv
  proof -
    from that have "fst kv \<in> fst ` set ?inst" by (rule imageI)
    then show ?thesis by (rule no_PhaseKey_in_instants)
  qed
  then have f1: "filter (\<lambda>(k, v). is_PhaseKey k) ?inst = []"
    by (simp add: filter_empty_conv case_prod_beta)
  have f2: "filter (\<lambda>(k, v). is_PhaseKey k) (phase_entries P) = phase_entries P"
    by (simp add: phase_entries_def filter_id_conv)
  have cnt: "length (filter (\<lambda>(k, v). is_PhaseKey k) ?vals) =
      (if 0 < P then nat (P + 1) else 0)"
    by (simp add: f1 f2) (simp add: phase_entries_def)
  have none: "map_of ?inst (PhaseKey p) = None" for p
    using nophase [of p] by (simp add: map_of_eq_None_iff)
  have look: "map_of ?vals (PhaseKey p) =
        (if 0 < P \<and> 0 \<le> p \<and> p \<le> P then Some (double_val 0) else None)" for p
    by (simp add: map_add_def none map_of_phase_entries)
  from Z res cnt look
  have "\<exists>Z vals. (\<forall>t. zeroValues robot t = Inr (Z t)) \<and>
        zeroValuesTrajectory robot N P = Inr vals \<and>
        vals = concat (map Z [0..N]) @
               (if 0 < P then map (\<lambda>phase. (PhaseKey phase, double_val 0)) [0..P] else []) \<and>
        length (filter (\<lambda>(k, v). is_PhaseKey k) vals) = (if 0 < P then nat (P + 1) else 0) \<and>
        (\<forall>phase. map_of vals (PhaseKey phase) =
           (if 0 < P \<and> 0 \<le> phase \<and> phase \<le> P then Some (double_val 0) else None))"
    unfolding phase_entries_def by blast
  then show ?thesis
    by (subst if_P [OF wf])
qed

theorem zeroValuesTrajectory_contents_witness:
  "(\<exists>vals. zeroValuesTrajectory simple_robot 1 2 = Inr vals \<and> length vals = 27 \<and>
      length (filter (\<lambda>(k, v). is_PhaseKey k) vals) = 3 \<and>
      map_of vals (PhaseKey 0) = Some (double_val 0) \<and>
      map_of vals (PhaseKey 2) = Some (double_val 0) \<and>
      map_of vals (PhaseKey 3) = None) \<and>
   (\<exists>vals. zeroValuesTrajectory simple_robot 1 0 = Inr vals \<and> length vals = 24 \<and>
      length (filter (\<lambda>(k, v). is_PhaseKey k) vals) = 0 \<and>
      map_of vals (PhaseKey 0) = None) \<and>
   (\<exists>k. zeroValuesTrajectory self_joint_robot 1 2 = Inl (ValuesKeyAlreadyExists k))"
proof -
  have wf: "distinct_ids simple_robot"
    by (simp add: distinct_ids_def simple_robot_def simple_l1_def simple_l2_def simple_j1_def)
  have up: "[0..1::int] = [0, 1]" "[0..2::int] = [0, 1, 2]"
    by (simp_all add: upto_rec1)
  have len: "length Zt = 12" if "zeroValues simple_robot t = Inr Zt" for t Zt
  proof -
    from that zeroValues_ok [OF wf, of t] have "Zt = zeroValues_entries simple_robot t"
      by simp
    then show ?thesis
      by (simp add: length_zeroValues_entries) (simp add: simple_robot_def)
  qed
  from zeroValuesTrajectory_contents [of simple_robot 1 2, unfolded if_P [OF wf]]
  obtain Z vals where Z: "\<And>t. zeroValues simple_robot t = Inr (Z t)"
    and res: "zeroValuesTrajectory simple_robot 1 2 = Inr vals"
    and vals: "vals = concat (map Z [0..1]) @
            (if 0 < (2::int) then map (\<lambda>phase. (PhaseKey phase, double_val 0)) [0..2] else [])"
    and cnt: "length (filter (\<lambda>(k, v). is_PhaseKey k) vals) =
            (if 0 < (2::int) then nat (2 + 1) else 0)"
    and look: "\<And>phase. map_of vals (PhaseKey phase) =
        (if 0 < (2::int) \<and> 0 \<le> phase \<and> phase \<le> 2 then Some (double_val 0) else None)"
    by blast
  have "length vals = 27"
    unfolding vals using len [OF Z [of 0]] len [OF Z [of 1]] by (simp add: up)
  with res cnt look [of 0] look [of 2] look [of 3]
  have first: "\<exists>vals. zeroValuesTrajectory simple_robot 1 2 = Inr vals \<and> length vals = 27 \<and>
      length (filter (\<lambda>(k, v). is_PhaseKey k) vals) = 3 \<and>
      map_of vals (PhaseKey 0) = Some (double_val 0) \<and>
      map_of vals (PhaseKey 2) = Some (double_val 0) \<and>
      map_of vals (PhaseKey 3) = None"
    by simp
  from zeroValuesTrajectory_contents [of simple_robot 1 0, unfolded if_P [OF wf]]
  obtain Z' vals' where Z': "\<And>t. zeroValues simple_robot t = Inr (Z' t)"
    and res': "zeroValuesTrajectory simple_robot 1 0 = Inr vals'"
    and vals': "vals' = concat (map Z' [0..1]) @
            (if 0 < (0::int) then map (\<lambda>phase. (PhaseKey phase, double_val 0)) [0..0] else [])"
    and cnt': "length (filter (\<lambda>(k, v). is_PhaseKey k) vals') =
            (if 0 < (0::int) then nat (0 + 1) else 0)"
    and look': "\<And>phase. map_of vals' (PhaseKey phase) =
        (if 0 < (0::int) \<and> 0 \<le> phase \<and> phase \<le> 0 then Some (double_val 0) else None)"
    by blast
  have "length vals' = 24"
    unfolding vals' using len [OF Z' [of 0]] len [OF Z' [of 1]] by (simp add: up)
  with res' cnt' look' [of 0]
  have second: "\<exists>vals. zeroValuesTrajectory simple_robot 1 0 = Inr vals \<and> length vals = 24 \<and>
      length (filter (\<lambda>(k, v). is_PhaseKey k) vals) = 0 \<and>
      map_of vals (PhaseKey 0) = None"
    by simp
  have "\<not> distinct_ids self_joint_robot"
    by (simp add: distinct_ids_def self_joint_robot_def simple_j1_def)
  with zeroValuesTrajectory_contents [of self_joint_robot 1 2]
  have third: "\<exists>k. zeroValuesTrajectory self_joint_robot 1 2 = Inl (ValuesKeyAlreadyExists k)"
    by simp
  from first second third show ?thesis by blast
qed

section \<open>The joint between two links: direction of the query\<close>

lemma joint_connects_commute: "joint_connects joint l1 l2 = joint_connects joint l2 l1"
  by (auto simp add: joint_connects_def)

text \<open>
  Claim C8. For every pair of link names, \<open>getJointBetweenLinks\<close> fails with
  \<open>NoSuchJoint\<close> when no joint of the robot connects the two links; it returns the
  connecting joint when the robot has exactly one; a joint it returns is a joint of the
  robot that connects the two links; and the query \<open>(l1, l2)\<close> has the result of the
  query \<open>(l2, l1)\<close>.
\<close>

theorem getJointBetweenLinks_result:
  "((\<forall>joint\<in>set (joints robot). \<not> joint_connects joint l1 l2) \<longrightarrow>
      getJointBetweenLinks robot l1 l2 = Inl NoSuchJoint) \<and>
   (\<forall>joint. filter (\<lambda>joint. joint_connects joint l1 l2) (joints robot) = [joint] \<longrightarrow>
      getJointBetweenLinks robot l1 l2 = Inr joint) \<and>
   (\<forall>joint. getJointBetweenLinks robot l1 l2 = Inr joint \<longrightarrow>
      joint \<in> set (joints robot) \<and> joint_connects joint l1 l2) \<and>
   getJointBetweenLinks robot l1 l2 = getJointBetweenLinks robot l2 l1"
proof (intro conjI allI impI)
  assume "\<forall>joint\<in>set (joints robot). \<not> joint_connects joint l1 l2"
  then have "filter (\<lambda>joint. joint_connects joint l1 l2) (joints robot) = []"
    by (simp add: filter_empty_conv)
  then show "getJointBetweenLinks robot l1 l2 = Inl NoSuchJoint"
    by (simp add: getJointBetweenLinks_def)
next
  fix joint
  assume "filter (\<lambda>joint. joint_connects joint l1 l2) (joints robot) = [joint]"
  then show "getJointBetweenLinks robot l1 l2 = Inr joint"
    by (simp add: getJointBetweenLinks_def)
next
  fix joint
  assume r: "getJointBetweenLinks robot l1 l2 = Inr joint"
  then have "filter (\<lambda>joint. joint_connects joint l1 l2) (joints robot) = [joint]"
    by (auto simp add: getJointBetweenLinks_def split: list.splits)
  then have "joint \<in> set (filter (\<lambda>joint. joint_connects joint l1 l2) (joints robot))"
    by simp
  then show "joint \<in> set (joints robot)" and "joint_connects joint l1 l2"
    by simp_all
next
  have "filter (\<lambda>joint. joint_connects joint l1 l2) (joints robot) =
        filter (\<lambda>joint. joint_connects joint l2 l1) (joints robot)"
    by (simp add: joint_connects_commute [of _ l1 l2])
  then show "getJointBetweenLinks robot l1 l2 = getJointBetweenLinks robot l2 l1"
    by (simp add: getJointBetweenLinks_def)
qed

theorem getJointBetweenLinks_result_witness:
  "getJointBetweenLinks hub_robot ''spoke1'' ''spoke2'' = Inl NoSuchJoint \<and>
   getJointBetweenLinks hub_robot ''hub'' ''spoke2'' = Inr (spoke_joint 1) \<and>
   getJointBetweenLinks hub_robot ''spoke2'' ''hub'' = Inr (spoke_joint 1) \<and>
   spoke_joint 1 \<in> set (joints hub_robot) \<and>
   joint_connects (spoke_joint 1) ''hub'' ''spoke2''"
  using getJointBetweenLinks_result [of hub_robot "''spoke1''" "''spoke2''"]
    getJointBetweenLinks_result [of hub_robot "''hub''" "''spoke2''"]
  by (auto simp add: hub_robot_def spoke_joint_def joint_connects_def)

end
